theory Spec2Isabelle
  imports Complex_Main "HOL-Library.Word"
begin

unbundle bit_operations_syntax

section \<open>Machine integers, slices and errors\<close>

text \<open>
  Go's fixed-width integers are words: arithmetic wraps, \<open>ucast\<close> is a zero-extending
  (or truncating) conversion, \<open>scast\<close> a sign-extending one, and the signed types
  \<open>int32\<close>, \<open>int64\<close> are compared with \<open>sint\<close>, \<open><s\<close> and \<open>\<le>s\<close>.
  Go's \<open>int\<close> is used by the code for lengths and indices only; it is modelled as
  \<open>nat\<close> where the code keeps it non-negative and as \<open>int\<close> where it can be \<open>-1\<close>.
\<close>

type_synonym u8 = "8 word"
type_synonym u16 = "16 word"
type_synonym u32 = "32 word"
type_synonym u64 = "64 word"
type_synonym i32 = "32 word"
type_synonym i64 = "64 word"

text \<open>
  A Go slice whose \<open>nil\<close>-ness the code tests: \<open>None\<close> is the nil slice,
  \<open>Some xs\<close> a non-nil slice with the elements \<open>xs\<close>.
\<close>

type_synonym 'a slice = "'a list option"

text \<open>
  Errors are values. \<open>Errorf\<close> is an error built with \<open>fmt.Errorf\<close>;
  \<open>PanicIndex\<close> is the run-time panic "index out of range", which is not a returned
  error; \<open>EOF\<close> and \<open>ErrUnexpectedEOF\<close> are the two sentinel errors of package io;
  \<open>ErrNegativePosition\<close> is the error of a seek before the start of an
  in-memory source.
\<close>

datatype error = Errorf string | PanicIndex | EOF | ErrUnexpectedEOF | ErrNegativePosition

section \<open>Sample-table reconstruction (package remux)\<close>

record Sample =
  Offset :: i64
  Size :: u32
  Duration :: u32
  DTS :: i64
  PresentationOffset :: i32
  Sync :: bool

text \<open>
  Modelled from the spec: the entry types \<open>STTSEntry\<close>, \<open>CTTSEntry\<close> and
  \<open>STSCEntry\<close> of the decoded box bodies are declared in package mp4, which is not
  among the sources. The specification gives \<open>stts\<close> as \<open>[{count, duration}]\<close>,
  \<open>ctts\<close> as \<open>[{count, offset}]\<close> with the offset surfaced as signed 32-bit, and
  \<open>stsc\<close> as \<open>[{first_chunk, samples_per_chunk, sample_description_id}]\<close>; the
  field names are the ones \<open>buildSampleTable\<close> reads.
\<close>

record STTSEntry =
  stts_Count :: u32
  stts_Duration :: u32

record CTTSEntry =
  ctts_Count :: u32
  CompositionOffset :: i32

record STSCEntry =
  FirstChunk :: u32
  SamplesPerChunk :: u32
  SampleDescriptionId :: u32

text \<open>
  Modelled from the spec: the decoded box tree (\<open>mp4.Box\<close> with its lookup
  \<open>Child\<close>) is not among the sources; the specification describes \<open>child(type)\<close>
  as the first direct child of that type and the recognised bodies as typed records.
  This is the \<open>stbl\<close> box as \<open>buildSampleTable\<close> sees it. For every child type the field is
  \<open>None\<close> when \<open>stbl.Child(t)\<close> is nil or the typed body of the child is nil, and
  otherwise holds the body's \<open>Entries\<close>. The code reads the \<open>stss\<close> entries from the
  \<open>Stco\<close> body of the \<open>stss\<close> child. For \<open>ctts\<close> and \<open>stss\<close> the
  code also tests the entries against nil, so these two are slices.
\<close>

record Stbl =
  Stsz :: "u32 list option"
  Stts :: "STTSEntry list option"
  Stsc :: "STSCEntry list option"
  Co64 :: "u64 list option"
  Stco :: "u32 list option"
  Ctts :: "CTTSEntry slice option"
  Stss :: "u32 slice option"

text \<open>The local tables of \<open>buildSampleTable\<close> once the boxes are looked up.\<close>

record tables =
  sizes :: "u32 list"
  sttsEntries :: "STTSEntry list"
  stscEntries :: "STSCEntry list"
  chunkOffsets :: "i64 list"
  cttsEntries :: "CTTSEntry slice"
  syncEntries :: "u32 slice"

text \<open>The loop variables of \<open>buildSampleTable\<close>.\<close>

record cursors =
  sampleInChunk :: nat
  chunk :: nat
  offsetInChunk :: i64
  sampleToChunkIndex :: nat
  dts :: i64
  decodingIdx :: nat
  decodingOff :: nat
  cttsIdx :: nat
  cttsOff :: nat
  syncIdx :: nat

definition initCursors :: cursors where
  "initCursors = \<lparr>sampleInChunk = 0, chunk = 0, offsetInChunk = 0, sampleToChunkIndex = 0,
     dts = 0, decodingIdx = 0, decodingOff = 0, cttsIdx = 0, cttsOff = 0, syncIdx = 0\<rparr>"

text \<open>
  The first half of the loop body (lines 315 to 338): the sample \<open>i\<close> and the sample
  description id of the current \<open>stsc\<close> entry. The three unguarded index expressions
  \<open>stscEntries[sampleToChunkIndex]\<close>, \<open>sttsEntries[decodingIdx]\<close> and
  \<open>chunkOffsets[chunk]\<close> panic out of range; the reads of \<open>cttsEntries\<close> and
  \<open>syncEntries\<close> are guarded by the code.
\<close>

definition presentationOffsetAt :: "CTTSEntry slice \<Rightarrow> nat \<Rightarrow> i32" where
  "presentationOffsetAt ce ci =
     (case ce of
        None \<Rightarrow> 0
      | Some es \<Rightarrow> if ci < length es then CompositionOffset (es ! ci) else 0)"

definition syncAt :: "u32 slice \<Rightarrow> nat \<Rightarrow> nat \<Rightarrow> bool" where
  "syncAt se si i =
     (case se of
        None \<Rightarrow> True
      | Some es \<Rightarrow> si < length es \<and> es ! si = (word_of_nat (i + 1) :: u32))"

definition emitSample :: "tables \<Rightarrow> nat \<Rightarrow> cursors \<Rightarrow> error + (Sample \<times> u32)" where
  "emitSample T i c =
     (if sampleToChunkIndex c \<ge> length (stscEntries T) then Inl PanicIndex
      else if decodingIdx c \<ge> length (sttsEntries T) then Inl PanicIndex
      else if chunk c \<ge> length (chunkOffsets T) then Inl PanicIndex
      else Inr (\<lparr>Offset = offsetInChunk c + chunkOffsets T ! chunk c,
                 Size = sizes T ! i,
                 Duration = stts_Duration (sttsEntries T ! decodingIdx c),
                 DTS = dts c,
                 PresentationOffset = presentationOffsetAt (cttsEntries T) (cttsIdx c),
                 Sync = syncAt (syncEntries T) (syncIdx c) i\<rparr>,
                SampleDescriptionId (stscEntries T ! sampleToChunkIndex c)))"

text \<open>
  The second half of the loop body (lines 345 to 380), run when sample \<open>i\<close> is not the
  last one. It is only reached after \<open>emitSample\<close> succeeded, so
  \<open>stscEntries[sampleToChunkIndex]\<close> and \<open>sttsEntries[decodingIdx]\<close> are in range.
\<close>

definition advanceChunk :: "tables \<Rightarrow> cursors \<Rightarrow> u32 \<Rightarrow> cursors" where
  "advanceChunk T c sz =
     (let currChunkEntry = stscEntries T ! sampleToChunkIndex c;
          sic = sampleInChunk c + 1;
          oic = offsetInChunk c + ucast sz
      in if sic \<ge> unat (SamplesPerChunk currChunkEntry) then
           (let ch = chunk c + 1 in
            c\<lparr>sampleInChunk := 0, offsetInChunk := 0, chunk := ch,
              sampleToChunkIndex :=
                (if sampleToChunkIndex c + 1 < length (stscEntries T)
                    \<and> (word_of_nat (ch + 1) :: u32)
                         \<ge> FirstChunk (stscEntries T ! (sampleToChunkIndex c + 1))
                 then sampleToChunkIndex c + 1 else sampleToChunkIndex c)\<rparr>)
         else c\<lparr>sampleInChunk := sic, offsetInChunk := oic\<rparr>)"

definition advanceTime :: "tables \<Rightarrow> cursors \<Rightarrow> u32 \<Rightarrow> cursors" where
  "advanceTime T c duration =
     (let d = dts c + ucast duration;
          off = decodingOff c + 1
      in if off \<ge> unat (stts_Count (sttsEntries T ! decodingIdx c))
         then c\<lparr>dts := d, decodingIdx := decodingIdx c + 1, decodingOff := 0\<rparr>
         else c\<lparr>dts := d, decodingOff := off\<rparr>)"

definition advanceCtts :: "tables \<Rightarrow> cursors \<Rightarrow> cursors" where
  "advanceCtts T c =
     (case cttsEntries T of
        None \<Rightarrow> c
      | Some es \<Rightarrow>
          (let off = cttsOff c + 1
           in if cttsIdx c < length es \<and> off \<ge> unat (ctts_Count (es ! cttsIdx c))
              then c\<lparr>cttsIdx := cttsIdx c + 1, cttsOff := 0\<rparr>
              else c\<lparr>cttsOff := off\<rparr>))"

definition advanceSync :: "cursors \<Rightarrow> bool \<Rightarrow> cursors" where
  "advanceSync c sync = (if sync then c\<lparr>syncIdx := syncIdx c + 1\<rparr> else c)"

definition advance :: "tables \<Rightarrow> cursors \<Rightarrow> Sample \<Rightarrow> cursors" where
  "advance T c s =
     advanceSync (advanceCtts T (advanceTime T (advanceChunk T c (Size s)) (Duration s))) (Sync s)"

text \<open>
  The loop \<open>for i := range numSamples\<close> over the array \<open>samples\<close> of \<open>numSamples\<close>
  zero values, with the sample description id seen last.
\<close>

function sampleLoop ::
  "tables \<Rightarrow> nat \<Rightarrow> cursors \<Rightarrow> u32 \<Rightarrow> Sample list \<Rightarrow> error + (Sample list \<times> u32)" where
  "sampleLoop T i c defaultSdi samples =
     (if i \<ge> length (sizes T) then Inr (samples, defaultSdi)
      else case emitSample T i c of
             Inl e \<Rightarrow> Inl e
           | Inr (s, sdi) \<Rightarrow>
               if i + 1 \<ge> length (sizes T) then Inr (samples[i := s], sdi)
               else sampleLoop T (i + 1) (advance T c s) sdi (samples[i := s]))"
  by pat_completeness auto
termination
  by (relation "measure (\<lambda>(T, i, c, d, ss). length (sizes T) - i)") auto

declare sampleLoop.simps [simp del]

definition zeroSample :: Sample where
  "zeroSample = \<lparr>Offset = 0, Size = 0, Duration = 0, DTS = 0, PresentationOffset = 0,
     Sync = False\<rparr>"

definition flattenSlice :: "'a slice option \<Rightarrow> 'a slice" where
  "flattenSlice b = (case b of None \<Rightarrow> None | Some es \<Rightarrow> es)"

text \<open>The chunk offset table: \<open>co64\<close> when present, otherwise \<open>stco\<close>, as \<open>int64\<close>.\<close>

definition chunkOffsetTable :: "Stbl \<Rightarrow> i64 list option" where
  "chunkOffsetTable stbl =
     (case Co64 stbl of
        Some es \<Rightarrow> Some (map (\<lambda>v. v) es)
      | None \<Rightarrow> (case Stco stbl of
                   Some es \<Rightarrow> Some (map ucast es)
                 | None \<Rightarrow> None))"

text \<open>
  The box lookups at the head of \<open>buildSampleTable\<close> (lines 252 to 310), with the
  four errors they return.
\<close>

definition lookupTables :: "Stbl \<Rightarrow> error + tables" where
  "lookupTables stbl =
     (case Stsz stbl of
        None \<Rightarrow> Inl (Errorf ''missing stsz'')
      | Some sz \<Rightarrow>
     (case Stts stbl of
        None \<Rightarrow> Inl (Errorf ''missing stts'')
      | Some tts \<Rightarrow>
     (case Stsc stbl of
        None \<Rightarrow> Inl (Errorf ''missing stsc'')
      | Some tsc \<Rightarrow>
     (case chunkOffsetTable stbl of
        None \<Rightarrow> Inl (Errorf ''missing stco/co64'')
      | Some co \<Rightarrow>
          Inr \<lparr>sizes = sz, sttsEntries = tts, stscEntries = tsc, chunkOffsets = co,
                cttsEntries = flattenSlice (Ctts stbl),
                syncEntries = flattenSlice (Stss stbl)\<rparr>))))"

definition buildSampleTable :: "Stbl \<Rightarrow> error + (Sample list \<times> u32)" where
  "buildSampleTable stbl =
     (case lookupTables stbl of
        Inl e \<Rightarrow> Inl e
      | Inr T \<Rightarrow> sampleLoop T 0 initCursors 0 (replicate (length (sizes T)) zeroSample))"

text \<open>
  The loop variables at the head of iteration \<open>k\<close>, replayed from the start: the
  position of every per-sample cursor when sample \<open>k\<close> is about to be read.
\<close>

fun cursorAt :: "tables \<Rightarrow> nat \<Rightarrow> error + cursors" where
  "cursorAt T 0 = Inr initCursors"
| "cursorAt T (Suc k) =
     (case cursorAt T k of
        Inl e \<Rightarrow> Inl e
      | Inr c \<Rightarrow> (case emitSample T k c of
                   Inl e \<Rightarrow> Inl e
                 | Inr (s, sdi) \<Rightarrow> Inr (advance T c s)))"

section \<open>Tracks and the seek helpers (package remux)\<close>

record Track =
  TrackID :: u32
  TimeScale :: u32
  Codec :: string
  Mime :: string
  Samples :: "Sample list"
  initBuf :: "u8 list"
  defaultSampleDescriptionIndex :: u32

text \<open>The presentation timestamp \<open>s.DTS + int64(s.PresentationOffset)\<close>.\<close>

definition pts :: "Sample \<Rightarrow> i64" where
  "pts s = DTS s + scast (PresentationOffset s)"

text \<open>
  \<open>sort.Search(n, f)\<close> of the Go standard library: the loop starts with
  \<open>i, j = 0, n\<close>, probes \<open>h = (i + j) / 2\<close> and returns \<open>i\<close>.
\<close>

function searchLoop :: "(nat \<Rightarrow> bool) \<Rightarrow> nat \<Rightarrow> nat \<Rightarrow> nat" where
  "searchLoop f i j =
     (if i < j then
        (let h = (i + j) div 2
         in if \<not> f h then searchLoop f (h + 1) j else searchLoop f i h)
      else i)"
  by pat_completeness auto
termination
  by (relation "measure (\<lambda>(f, i, j). j - i)") auto

declare searchLoop.simps [simp del]

definition sort_Search :: "nat \<Rightarrow> (nat \<Rightarrow> bool) \<Rightarrow> nat" where
  "sort_Search n f = searchLoop f 0 n"

text \<open>
  The two seek helpers take their time in seconds as a \<open>float64\<close> and start with
  \<open>scaledTime := int64(timeSeconds * float64(t.TimeScale))\<close>. \<open>FindSampleBefore\<close>
  and \<open>FindSampleAfter\<close> below are the two methods from their second statement on,
  with \<open>scaledTime\<close> as the argument; the conversion, and the two methods with the
  time in seconds, follow them.
\<close>

text \<open>The loop \<open>for idx > 0 && !t.Samples[idx].Sync { idx-- }\<close>.\<close>

fun walkBackward :: "Sample list \<Rightarrow> nat \<Rightarrow> nat" where
  "walkBackward ss 0 = 0"
| "walkBackward ss (Suc k) = (if \<not> Sync (ss ! Suc k) then walkBackward ss k else Suc k)"

definition FindSampleBefore :: "Track \<Rightarrow> i64 \<Rightarrow> int" where
  "FindSampleBefore t scaledTime =
     (let idx = max (int (sort_Search (length (Samples t))
                           (\<lambda>i. scaledTime <s pts (Samples t ! i))) - 1) 0
      in int (walkBackward (Samples t) (nat idx)))"

text \<open>The loop \<open>for idx < len(t.Samples) && !t.Samples[idx].Sync { idx++ }\<close>.\<close>

function walkForward :: "Sample list \<Rightarrow> nat \<Rightarrow> nat" where
  "walkForward ss idx =
     (if idx < length ss \<and> \<not> Sync (ss ! idx) then walkForward ss (idx + 1) else idx)"
  by pat_completeness auto
termination
  by (relation "measure (\<lambda>(ss, idx). length ss - idx)") auto

declare walkForward.simps [simp del]

definition FindSampleAfter :: "Track \<Rightarrow> i64 \<Rightarrow> int" where
  "FindSampleAfter t scaledTime =
     (let n = length (Samples t);
          idx = sort_Search n (\<lambda>i. scaledTime \<le>s pts (Samples t ! i))
      in if idx \<ge> n then int n - 1
         else (let idx' = walkForward (Samples t) idx
               in if idx' \<ge> n then int n - 1 else int idx'))"

text \<open>
  The conversion \<open>int64(timeSeconds * float64(t.TimeScale))\<close>. A \<open>float64\<close> is a
  finite number, an infinity or NaN; the finite ones are kept as the real number they
  denote, so the sign of a zero is not kept (the conversion to \<open>int64\<close> gives 0 for
  both zeros).
\<close>

datatype float64 = Finite real | PosInf | NegInf | NaN

text \<open>
  Rounding of a real number to \<open>float64\<close>, to nearest with ties to even: the result is
  a multiple of the unit in the last place of the 53-bit significand, which is
  \<open>2 ^ (\<lfloor>log2 |x|\<rfloor> - 52)\<close> and never below \<open>2 ^ (-1074)\<close> (the subnormal
  numbers); a result of magnitude \<open>2 ^ 1024\<close> or more is an infinity.
\<close>

definition round_half_even :: "real \<Rightarrow> int" where
  "round_half_even r =
     (let f = \<lfloor>r\<rfloor>; d = r - of_int f
      in if d < 1 / 2 then f else if 1 / 2 < d then f + 1 else if even f then f else f + 1)"

definition ulp_exponent :: "real \<Rightarrow> int" where
  "ulp_exponent x = max (\<lfloor>log 2 \<bar>x\<bar>\<rfloor> - 52) (- 1074)"

definition ulp :: "real \<Rightarrow> real" where
  "ulp x = 2 powr of_int (ulp_exponent x)"

definition round_to_grid :: "real \<Rightarrow> real" where
  "round_to_grid x = (if x = 0 then 0 else of_int (round_half_even (x / ulp x)) * ulp x)"

definition round64 :: "real \<Rightarrow> float64" where
  "round64 x =
     (let r = round_to_grid x
      in if 2 ^ 1024 \<le> \<bar>r\<bar> then (if 0 < x then PosInf else NegInf) else Finite r)"


text \<open>
  The product \<open>x * y\<close> of two \<open>float64\<close>: the exact product rounded; zero times an
  infinity is NaN.
\<close>

fun float_mul :: "float64 \<Rightarrow> float64 \<Rightarrow> float64" where
  "float_mul (Finite x) (Finite y) = round64 (x * y)"
| "float_mul NaN _ = NaN"
| "float_mul _ NaN = NaN"
| "float_mul (Finite x) PosInf = (if x = 0 then NaN else if 0 < x then PosInf else NegInf)"
| "float_mul (Finite x) NegInf = (if x = 0 then NaN else if 0 < x then NegInf else PosInf)"
| "float_mul PosInf (Finite y) = (if y = 0 then NaN else if 0 < y then PosInf else NegInf)"
| "float_mul NegInf (Finite y) = (if y = 0 then NaN else if 0 < y then NegInf else PosInf)"
| "float_mul PosInf PosInf = PosInf"
| "float_mul NegInf NegInf = PosInf"
| "float_mul PosInf NegInf = NegInf"
| "float_mul NegInf PosInf = NegInf"

text \<open>The conversion \<open>float64(v)\<close> of a \<open>uint32\<close>, which is exact.\<close>

definition float64_of_uint32 :: "u32 \<Rightarrow> float64" where
  "float64_of_uint32 v = Finite (real (unat v))"

text \<open>
  The conversion \<open>int64(f)\<close> of a \<open>float64\<close> discards the fraction (truncation
  towards zero). When the truncated value is not an \<open>int64\<close>, or \<open>f\<close> is an infinity
  or NaN, the language leaves the result to the implementation; the value taken here
  is the one of the amd64 instruction \<open>CVTTSD2SQ\<close>, \<open>0x8000000000000000\<close>.
\<close>

definition trunc_toward_zero :: "real \<Rightarrow> int" where
  "trunc_toward_zero r = (if 0 \<le> r then \<lfloor>r\<rfloor> else \<lceil>r\<rceil>)"

definition int64_representable :: "float64 \<Rightarrow> bool" where
  "int64_representable f =
     (case f of
        Finite r \<Rightarrow> - (2 ^ 63) \<le> trunc_toward_zero r \<and> trunc_toward_zero r < 2 ^ 63
      | _ \<Rightarrow> False)"

definition float64_to_int64 :: "float64 \<Rightarrow> i64" where
  "float64_to_int64 f =
     (case f of
        Finite r \<Rightarrow>
          if int64_representable f then word_of_int (trunc_toward_zero r) else - (2 ^ 63)
      | _ \<Rightarrow> - (2 ^ 63))"

text \<open>
  The first line of both seek helpers, and the two methods as they are called, with
  the time in seconds.
\<close>

definition scaledTime :: "Track \<Rightarrow> float64 \<Rightarrow> i64" where
  "scaledTime t timeSeconds =
     float64_to_int64 (float_mul timeSeconds (float64_of_uint32 (TimeScale t)))"



section \<open>Fragment boundaries and runs (package remux)\<close>

text \<open>
  Modelled from the spec: \<open>mp4.TrunEntry\<close> is declared in package mp4, which is not
  among the sources. The specification gives it as
  \<open>TrunEntry{duration, size, sample_flags, composition_time_offset}\<close>; the field
  names and widths are the ones \<open>generateFragment\<close> and \<open>writeMoof\<close> use.
\<close>

record TrunEntry =
  SampleDuration :: u32
  SampleSize :: u32
  SampleFlags :: u32
  SampleCompositionTimeOffset :: i32

record byteRange =
  Start :: i64
  End :: i64

definition minFragmentDuration :: i64 where
  "minFragmentDuration = 1"

text \<open>
  The loop of \<open>generateFragment\<close> that finds the end of the fragment (lines 615 to
  634); \<open>lastSample\<close> is the loop variable and the result.
\<close>

function fragmentEnd :: "Sample list \<Rightarrow> nat \<Rightarrow> i64 \<Rightarrow> i64 \<Rightarrow> i64 \<Rightarrow> nat \<Rightarrow> nat" where
  "fragmentEnd samples firstSample startDts threshold endTimeScaled lastSample =
     (if lastSample < length samples then
        (if 0 <s endTimeScaled \<and> endTimeScaled \<le>s pts (samples ! lastSample) then lastSample
         else if endTimeScaled = 0 \<and> lastSample > firstSample \<and> Sync (samples ! lastSample)
                 \<and> threshold \<le>s DTS (samples ! lastSample) - startDts
              then lastSample
         else fragmentEnd samples firstSample startDts threshold endTimeScaled (lastSample + 1))
      else lastSample)"
  by pat_completeness auto
termination
  by (relation "measure (\<lambda>(ss, f, d, th, e, l). length ss - l)") auto

declare fragmentEnd.simps [simp del]

text \<open>
  The body of the loop that fills \<open>trunEntries\<close> (lines 651 to 667), as a step on the
  entries written so far, \<open>totalLen\<close> and \<open>trunVersion\<close>.
\<close>

definition trunEntryOf :: "Sample \<Rightarrow> TrunEntry" where
  "trunEntryOf s =
     \<lparr>SampleDuration = Duration s, SampleSize = Size s,
      SampleFlags = (if \<not> Sync s then 0x1010000 else 0x2000000),
      SampleCompositionTimeOffset = PresentationOffset s\<rparr>"

definition runStep :: "TrunEntry list \<times> i64 \<times> u8 \<Rightarrow> Sample \<Rightarrow> TrunEntry list \<times> i64 \<times> u8" where
  "runStep st s =
     (case st of (entries, totalLen, trunVersion) \<Rightarrow>
        (entries @ [trunEntryOf s], totalLen + ucast (Size s),
         if PresentationOffset s <s 0 then 1 else trunVersion))"

text \<open>
  The body of the loop that coalesces contiguous byte ranges (lines 671 to 680), as a
  step on \<open>ranges\<close>.
\<close>

definition rangeStep :: "byteRange list \<Rightarrow> Sample \<Rightarrow> byteRange list" where
  "rangeStep ranges s =
     (let sStart = Offset s; sEnd = Offset s + ucast (Size s)
      in if ranges \<noteq> [] \<and> End (last ranges) = sStart
         then butlast ranges @ [(last ranges)\<lparr>End := sEnd\<rparr>]
         else ranges @ [\<lparr>Start = sStart, End = sEnd\<rparr>])"

text \<open>
  \<open>generateFragment\<close>. The caller's slices \<open>trunEntries\<close> and \<open>ranges\<close> are scratch
  buffers: the first \<open>n\<close> entries are all overwritten and \<open>ranges\<close> is emptied before
  use, so the model returns the contents only. A negative \<open>firstSample\<close> panics at
  \<open>samples[firstSample]\<close>.
\<close>

definition generateFragment ::
  "Track \<Rightarrow> int \<Rightarrow> i64 \<Rightarrow> error + (TrunEntry list \<times> byteRange list \<times> i64 \<times> int \<times> u8)" where
  "generateFragment track firstSample endTimeScaled =
     (let samples = Samples track
      in if firstSample \<ge> int (length samples) then Inr ([], [], 0, firstSample, 0)
         else if firstSample < 0 then Inl PanicIndex
         else
           (let first = nat firstSample;
                startDts = DTS (samples ! first);
                threshold = ucast (TimeScale track) * minFragmentDuration;
                lastSample = fragmentEnd samples first startDts threshold endTimeScaled first;
                n = lastSample - first
            in if n = 0 then Inr ([], [], 0, int lastSample, 0)
               else
                 (let selected = take n (drop first samples);
                      run = foldl runStep ([], 0, 0) selected;
                      ranges = foldl rangeStep [] selected
                  in Inr (fst run, ranges, fst (snd run), int lastSample, snd (snd run)))))"

section \<open>The moof writer and the stream writer (package remux)\<close>

text \<open>
  \<open>binary.BigEndian.PutUint32\<close> as the four octets it stores, and
  \<open>binary.BigEndian.Uint32\<close> / \<open>Uint64\<close> as the value read from the octets.
\<close>

definition be32 :: "u32 \<Rightarrow> u8 list" where
  "be32 v = [ucast (drop_bit 24 v), ucast (drop_bit 16 v), ucast (drop_bit 8 v), ucast v]"

definition be_uint :: "u8 list \<Rightarrow> 'a::len word" where
  "be_uint bs = foldl (\<lambda>acc b. push_bit 8 acc OR ucast b) 0 bs"

text \<open>The octets of a box type given as a string, as in \<open>copy(buf[p+4:], "moof")\<close>.\<close>

definition fourcc :: "string \<Rightarrow> u8 list" where
  "fourcc s = map (\<lambda>c. of_nat (of_char c)) s"

text \<open>
  One \<open>trun\<close> entry (lines 94 to 106); both branches on \<open>trunVersion\<close> store
  \<open>uint32(e.SampleCompositionTimeOffset)\<close>.
\<close>

definition trunEntryBytes :: "TrunEntry \<Rightarrow> u8 list" where
  "trunEntryBytes e =
     be32 (SampleDuration e) @ be32 (SampleSize e) @ be32 (SampleFlags e)
       @ be32 (SampleCompositionTimeOffset e)"

text \<open>
  \<open>writeMoof\<close>: the contents of \<open>buf[:moofSize]\<close> handed to \<open>w.Write\<close>. The code
  stores every octet of the buffer once, at increasing positions \<open>p\<close>, so the
  buffer is the concatenation of the stored fields. The sizes are Go \<open>int\<close>s,
  converted with \<open>uint32(...)\<close> when stored.
\<close>

definition writeMoof :: "u32 \<Rightarrow> u32 \<Rightarrow> u32 \<Rightarrow> TrunEntry list \<Rightarrow> u8 \<Rightarrow> u8 list" where
  "writeMoof seqNum trackID baseMediaDecodeTime entries trunVersion =
     (let n = length entries;
          trunSize = 20 + n * 16;
          trafSize = 8 + 16 + 16 + trunSize;
          moofSize = 8 + 16 + trafSize;
          dataOffset = moofSize + 8
      in be32 (word_of_nat moofSize) @ fourcc ''moof''
         @ be32 16 @ fourcc ''mfhd'' @ [0, 0, 0, 0] @ be32 seqNum
         @ be32 (word_of_nat trafSize) @ fourcc ''traf''
         @ be32 16 @ fourcc ''tfhd'' @ [0, 0x02, 0, 0] @ be32 trackID
         @ be32 16 @ fourcc ''tfdt'' @ [0, 0, 0, 0] @ be32 baseMediaDecodeTime
         @ be32 (word_of_nat trunSize) @ fourcc ''trun'' @ [trunVersion, 0x00, 0x0f, 0x01]
         @ be32 (word_of_nat n) @ be32 (word_of_nat dataOffset)
         @ concat (map trunEntryBytes entries))"

text \<open>
  \<open>resolveRange\<close>. The \<open>float64\<close> arguments enter through three values: the scaled
  start time used by the seek helpers, the test \<open>endTime > 0\<close>, and
  \<open>int64(endTime * float64(track.TimeScale))\<close>; the model takes these as
  \<open>startScaled\<close>, \<open>endPositive\<close> and \<open>endScaled\<close>. Indexing \<open>track.Samples\<close> outside
  its bounds panics.
\<close>

definition resolveRange :: "Track \<Rightarrow> i64 \<Rightarrow> bool \<Rightarrow> i64 \<Rightarrow> error + (int \<times> i64 \<times> i64)" where
  "resolveRange track startScaled endPositive endScaled =
     (let n = int (length (Samples track));
          after = FindSampleAfter track startScaled;
          resolved =
            (if endPositive \<and> after < n then
               (if after < 0 then Inl PanicIndex
                else if endScaled \<le>s pts (Samples track ! nat after)
                     then Inr (FindSampleBefore track startScaled)
                     else Inr after)
             else Inr after)
      in case resolved of
           Inl e \<Rightarrow> Inl e
         | Inr firstSample \<Rightarrow>
             if firstSample < 0 \<or> firstSample \<ge> n then Inl PanicIndex
             else Inr (firstSample, DTS (Samples track ! nat firstSample),
                       if endPositive then endScaled else 0))"

text \<open>
  The sink \<open>w\<close> is the sequence of its successful \<open>Write\<close> calls, each labelled with
  the call site; a moof also carries the index of the first sample of its fragment.
  Whether a \<open>Write\<close> fails is up to the sink: it is a function of what was written
  before and of the new block.
\<close>

datatype written =
    WInit "u8 list"
  | WMoof nat "u8 list"
  | WMdatHdr "u8 list"
  | WPayload "u8 list"

type_synonym sink = "written list \<Rightarrow> written \<Rightarrow> error option"

text \<open>
  The source \<open>rs\<close> is an in-memory byte sequence read as \<open>bytes.Reader\<close> does:
  \<open>Seek\<close> to a negative position fails, \<open>Read\<close> at or past the end returns
  \<open>(0, io.EOF)\<close>, and otherwise \<open>Read\<close> copies as many octets as are left, up to
  the length of the buffer. The inner copy loop (lines 79 to 94) with the 32768-octet
  \<open>copyBuf\<close>; \<open>pos\<close> is the read position and \<open>remaining\<close> an \<open>int64\<close> that only
  decreases.
\<close>

function copyLoop ::
  "sink \<Rightarrow> u8 list \<Rightarrow> nat \<Rightarrow> int \<Rightarrow> written list \<Rightarrow> written list \<times> error option" where
  "copyLoop snk src pos remaining out =
     (if remaining \<le> 0 then (out, None)
      else if pos \<ge> length src then (out, Some EOF)
      else
        (let n = min 32768 remaining;
             blk = take (nat n) (drop pos src)
         in case snk out (WPayload blk) of
              Some e \<Rightarrow> (out, Some e)
            | None \<Rightarrow> copyLoop snk src (pos + length blk) (remaining - int (length blk))
                         (out @ [WPayload blk])))"
  by pat_completeness auto
termination
  by (relation "measure (\<lambda>(snk, src, pos, remaining, out). nat remaining)") auto

declare copyLoop.simps [simp del]

text \<open>The loop over \<open>wr.ranges\<close> (lines 74 to 95).\<close>

fun copyRanges ::
  "sink \<Rightarrow> u8 list \<Rightarrow> byteRange list \<Rightarrow> written list \<Rightarrow> written list \<times> error option" where
  "copyRanges snk src [] out = (out, None)"
| "copyRanges snk src (r # rs) out =
     (if Start r <s 0 then (out, Some ErrNegativePosition)
      else case copyLoop snk src (nat (sint (Start r))) (sint (End r - Start r)) out of
             (out', Some e) \<Rightarrow> (out', Some e)
           | (out', None) \<Rightarrow> copyRanges snk src rs out')"

text \<open>
  One pass through the body of the fragment loop of \<open>Writer.WriteTo\<close> (lines 46 to
  98): either the loop is left, with the sink and the error to return, or it goes on
  at \<open>nextSample\<close>.
\<close>

datatype pass = Leave "written list" "error option" | Continue int "written list"

definition fragmentPass ::
  "sink \<Rightarrow> u8 list \<Rightarrow> Track \<Rightarrow> i64 \<Rightarrow> i64 \<Rightarrow> nat \<Rightarrow> u32 \<Rightarrow> written list \<Rightarrow> pass" where
  "fragmentPass snk src track dtsOffset endTimeScaled sample seqNum out =
     (if 0 <s endTimeScaled \<and> endTimeScaled \<le>s pts (Samples track ! sample) then Leave out None
      else case generateFragment track (int sample) endTimeScaled of
             Inl e \<Rightarrow> Leave out (Some e)
           | Inr (trunEntries, ranges, mdatSize, nextSample, trunVersion) \<Rightarrow>
               if trunEntries = [] then Leave out None
               else
                 (let baseMediaDecodeTime = (ucast (DTS (Samples track ! sample) - dtsOffset) :: u32);
                      moof = WMoof sample
                               (writeMoof seqNum (TrackID track) baseMediaDecodeTime trunEntries
                                  trunVersion);
                      mdatHdr = WMdatHdr (be32 (ucast (8 + mdatSize)) @ fourcc ''mdat'')
                  in case snk out moof of
                       Some e \<Rightarrow> Leave out (Some e)
                     | None \<Rightarrow>
                         (case snk (out @ [moof]) mdatHdr of
                            Some e \<Rightarrow> Leave (out @ [moof]) (Some e)
                          | None \<Rightarrow>
                              (case copyRanges snk src ranges (out @ [moof, mdatHdr]) of
                                 (out', Some e) \<Rightarrow> Leave out' (Some e)
                               | (out', None) \<Rightarrow> Continue nextSample out'))))"

text \<open>
  The fragment loop \<open>for sample < len(track.Samples)\<close> of \<open>Writer.WriteTo\<close>, with
  \<open>seqNum\<close> a \<open>uint32\<close>.
\<close>

function writeLoop ::
  "sink \<Rightarrow> u8 list \<Rightarrow> Track \<Rightarrow> i64 \<Rightarrow> i64 \<Rightarrow> nat \<Rightarrow> u32 \<Rightarrow> written list
     \<Rightarrow> written list \<times> error option" where
  "writeLoop snk src track dtsOffset endTimeScaled sample seqNum out =
     (if sample < length (Samples track) then
        (case fragmentPass snk src track dtsOffset endTimeScaled sample seqNum out of
           Leave out' err \<Rightarrow> (out', err)
         | Continue nextSample out' \<Rightarrow>
             writeLoop snk src track dtsOffset endTimeScaled (nat nextSample) (seqNum + 1) out')
      else (out, None))"
  by pat_completeness auto
termination
proof (relation "measure (\<lambda>(snk, src, track, dtsOffset, endTimeScaled, sample, seqNum, out).
                    length (Samples track) - sample)")
  show "wf (measure (\<lambda>(snk, src, track, dtsOffset, endTimeScaled, sample, seqNum, out).
                    length (Samples track) - sample))"
    by simp
next
  fix snk :: sink and src :: "u8 list" and track :: Track and dtsOffset endTimeScaled :: i64
    and sample :: nat and seqNum :: u32 and out out' :: "written list" and nextSample :: int
  assume lt: "sample < length (Samples track)"
    and pass: "fragmentPass snk src track dtsOffset endTimeScaled sample seqNum out
                 = Continue nextSample out'"
  from pass obtain es rs tot v where
    gen: "generateFragment track (int sample) endTimeScaled = Inr (es, rs, tot, nextSample, v)"
    and ne: "es \<noteq> []"
    by (auto simp: fragmentPass_def Let_def split: if_splits sum.splits option.splits prod.splits)
  from gen ne lt have "int sample < nextSample"
    by (auto simp: generateFragment_def Let_def split: if_splits)
  with lt show "((snk, src, track, dtsOffset, endTimeScaled, nat nextSample, seqNum + 1, out'),
         (snk, src, track, dtsOffset, endTimeScaled, sample, seqNum, out))
        \<in> measure (\<lambda>(snk, src, track, dtsOffset, endTimeScaled, sample, seqNum, out).
                    length (Samples track) - sample)"
    by simp
qed

declare writeLoop.simps [simp del]

text \<open>
  \<open>Writer.WriteTo\<close>: the sink after the call and the error returned (\<open>None\<close> is
  nil). The reusable buffers of the \<open>Writer\<close> hold no state between fragments
  and are left out.
\<close>

definition WriteTo ::
  "sink \<Rightarrow> u8 list \<Rightarrow> Track \<Rightarrow> i64 \<Rightarrow> bool \<Rightarrow> i64 \<Rightarrow> written list \<times> error option" where
  "WriteTo snk src track startScaled endPositive endScaled =
     (case resolveRange track startScaled endPositive endScaled of
        Inl e \<Rightarrow> ([], Some e)
      | Inr (firstSample, dtsOffset, endTimeScaled) \<Rightarrow>
          (case snk [] (WInit (initBuf track)) of
             Some e \<Rightarrow> ([], Some e)
           | None \<Rightarrow> writeLoop snk src track dtsOffset endTimeScaled (nat firstSample) 1
                       [WInit (initBuf track)]))"

text \<open>
  The stop condition of the boundary selection in the words of the specification:
  with an end time, the sample's presentation time has reached it; with no end time
  (\<open>end_time_scaled = 0\<close>), the sample is a sync sample strictly after
  \<open>first_sample\<close> whose decode time is at least \<open>timescale\<close> times the minimum
  fragment duration of one second after that of \<open>first_sample\<close>.
\<close>

definition spec_stop :: "Track \<Rightarrow> nat \<Rightarrow> i64 \<Rightarrow> nat \<Rightarrow> bool" where
  "spec_stop track first_sample end_time_scaled j =
     (let s = Samples track ! j
      in (0 <s end_time_scaled \<and> end_time_scaled \<le>s DTS s + scast (PresentationOffset s))
         \<or> (end_time_scaled = 0 \<and> first_sample < j \<and> Sync s
             \<and> ucast (TimeScale track) * 1 \<le>s DTS s - DTS (Samples track ! first_sample)))"

section \<open>The scanner (package bmff)\<close>

text \<open>
  The byte source of the scanner is an \<open>io.ReadSeeker\<close>. It is modelled as an
  in-memory source with the behaviour of \<open>bytes.Reader\<close>: the octets and the read
  position, an \<open>int64\<close>.
\<close>

record reader =
  r_data :: "u8 list"
  r_off :: i64

text \<open>
  \<open>io.ReadFull(rs, buf)\<close> for a buffer of \<open>n > 0\<close> octets: the octets read, the
  error and the source afterwards. With nothing left it returns \<open>io.EOF\<close>, with
  fewer than \<open>n\<close> octets left it reads them and returns \<open>io.ErrUnexpectedEOF\<close>.
\<close>

definition ReadFull :: "reader \<Rightarrow> nat \<Rightarrow> u8 list \<times> error option \<times> reader" where
  "ReadFull rd n =
     (let off = nat (sint (r_off rd)); left = length (r_data rd) - off
      in if left = 0 then ([], Some EOF, rd)
         else if left < n then
           (drop off (r_data rd), Some ErrUnexpectedEOF, rd\<lparr>r_off := r_off rd + word_of_nat left\<rparr>)
         else (take n (drop off (r_data rd)), None, rd\<lparr>r_off := r_off rd + word_of_nat n\<rparr>))"

datatype whence = SeekStart | SeekCurrent | SeekEnd

text \<open>\<open>rs.Seek(offset, whence)\<close>: the new position, or the error of a negative one.\<close>

definition Seek :: "reader \<Rightarrow> i64 \<Rightarrow> whence \<Rightarrow> error + (i64 \<times> reader)" where
  "Seek rd offset wh =
     (let newPos = (case wh of
                      SeekStart \<Rightarrow> offset
                    | SeekCurrent \<Rightarrow> r_off rd + offset
                    | SeekEnd \<Rightarrow> word_of_nat (length (r_data rd)) + offset)
      in if newPos <s 0 then Inl ErrNegativePosition
         else Inr (newPos, rd\<lparr>r_off := newPos\<rparr>))"

record ScanEntry =
  entry_Type :: "u8 list"
  entry_Size :: i64
  entry_Offset :: i64
  entry_HeaderSize :: nat

record Scanner =
  s_rs :: reader
  s_hdr :: "u8 list"
  s_entry :: ScanEntry
  s_err :: "error option"
  s_pos :: i64

definition NewScanner :: "reader \<Rightarrow> Scanner" where
  "NewScanner rd =
     \<lparr>s_rs = rd, s_hdr = replicate 16 0,
      s_entry = \<lparr>entry_Type = replicate 4 0, entry_Size = 0, entry_Offset = 0, entry_HeaderSize = 0\<rparr>,
      s_err = None, s_pos = 0\<rparr>"

text \<open>Storing octets read into \<open>s.hdr\<close> from position \<open>ofs\<close>.\<close>

definition fillHdr :: "u8 list \<Rightarrow> nat \<Rightarrow> u8 list \<Rightarrow> u8 list" where
  "fillHdr hdr ofs bs = take ofs hdr @ bs @ drop (ofs + length bs) hdr"

text \<open>
  The tail of \<open>Scanner.Next\<close> from \<open>if size == 0\<close> on (lines 80 to 117), once the
  header is read.
\<close>

definition finishNext :: "Scanner \<Rightarrow> i64 \<Rightarrow> u8 list \<Rightarrow> nat \<Rightarrow> bool \<times> Scanner" where
  "finishNext s size0 t headerSize =
     (let boxStart = s_pos s;
          sized =
            (if size0 = 0 then
               (case Seek (s_rs s) 0 SeekCurrent of
                  Inl e \<Rightarrow> Inl (e, s_rs s)
                | Inr (cur, rd1) \<Rightarrow>
                    (case Seek rd1 0 SeekEnd of
                       Inl e \<Rightarrow> Inl (e, rd1)
                     | Inr (endPos, rd2) \<Rightarrow>
                         (case Seek rd2 cur SeekStart of
                            Inl e \<Rightarrow> Inl (e, rd2)
                          | Inr (p, rd3) \<Rightarrow> Inr (endPos - boxStart, rd3))))
             else Inr (size0, s_rs s))
      in case sized of
           Inl (e, rd) \<Rightarrow> (False, s\<lparr>s_rs := rd, s_err := Some e\<rparr>)
         | Inr (sz, rd) \<Rightarrow>
             (let s1 = s\<lparr>s_rs := rd,
                         s_entry := \<lparr>entry_Type = t, entry_Size = sz, entry_Offset = boxStart,
                                     entry_HeaderSize = headerSize\<rparr>\<rparr>;
                  dataSize = sz - word_of_nat headerSize
              in if 0 <s dataSize then
                   (case Seek rd dataSize SeekCurrent of
                      Inl e \<Rightarrow> (False, s1\<lparr>s_err := Some e\<rparr>)
                    | Inr (p, rd') \<Rightarrow> (True, s1\<lparr>s_rs := rd', s_pos := boxStart + sz\<rparr>))
                 else (True, s1\<lparr>s_pos := boxStart + sz\<rparr>)))"

text \<open>\<open>Scanner.Next\<close>: the result and the scanner afterwards.\<close>

definition Scanner_Next :: "Scanner \<Rightarrow> bool \<times> Scanner" where
  "Scanner_Next s =
     (case ReadFull (s_rs s) 8 of
        (bs, Some e, rd) \<Rightarrow>
          (False, s\<lparr>s_rs := rd, s_hdr := fillHdr (s_hdr s) 0 bs,
                    s_err := (if e \<noteq> EOF \<and> e \<noteq> ErrUnexpectedEOF then Some e else s_err s)\<rparr>)
      | (bs, None, rd) \<Rightarrow>
          (let s1 = s\<lparr>s_rs := rd, s_hdr := fillHdr (s_hdr s) 0 bs\<rparr>;
               sz = (ucast (be_uint (take 4 (s_hdr s1)) :: u32) :: i64);
               t = take 4 (drop 4 (s_hdr s1))
           in if sz = 1 then
                (case ReadFull rd 8 of
                   (ext, Some e, rd') \<Rightarrow>
                     (False, s1\<lparr>s_rs := rd', s_hdr := fillHdr (s_hdr s1) 8 ext, s_err := Some e\<rparr>)
                 | (ext, None, rd') \<Rightarrow>
                     (let s2 = s1\<lparr>s_rs := rd', s_hdr := fillHdr (s_hdr s1) 8 ext\<rparr>
                      in finishNext s2 (be_uint (take 8 (drop 8 (s_hdr s2)))) t 16))
              else finishNext s1 sz t 8))"

text \<open>\<open>Scanner.Err\<close>.\<close>

definition Scanner_Err :: "Scanner \<Rightarrow> error option" where
  "Scanner_Err s = s_err s"

section \<open>The box writer (package bmff)\<close>

text \<open>
  The \<open>Writer\<close> encodes boxes into a caller-supplied buffer. \<open>w_stack\<close> holds the
  start offsets of the open boxes, innermost last (the frames below \<open>depth\<close> of the
  array of \<open>maxDepth\<close> frames); a write outside the buffer or a frame outside the
  array panics.
\<close>

record Writer =
  w_buf :: "u8 list"
  w_pos :: nat
  w_stack :: "nat list"

definition maxDepth :: nat where
  "maxDepth = 16"

definition uint32Max :: u64 where
  "uint32Max = 0xFFFFFFFF"

definition NewWriter :: "u8 list \<Rightarrow> Writer" where
  "NewWriter b = \<lparr>w_buf = b, w_pos = 0, w_stack = []\<rparr>"

text \<open>
  Storing the octets \<open>bs\<close> at position \<open>ofs\<close> of the buffer, as \<open>copy\<close> does: what
  does not fit is dropped.
\<close>

definition store :: "u8 list \<Rightarrow> nat \<Rightarrow> u8 list \<Rightarrow> u8 list" where
  "store b ofs bs = take ofs b @ take (length b - ofs) bs @ drop (ofs + length bs) b"

definition be16 :: "u16 \<Rightarrow> u8 list" where
  "be16 v = [ucast (drop_bit 8 v), ucast v]"

definition be64 :: "u64 \<Rightarrow> u8 list" where
  "be64 v = [ucast (drop_bit 56 v), ucast (drop_bit 48 v), ucast (drop_bit 40 v),
             ucast (drop_bit 32 v), ucast (drop_bit 24 v), ucast (drop_bit 16 v),
             ucast (drop_bit 8 v), ucast v]"

text \<open>
  \<open>putUint16\<close>, \<open>putUint32\<close>, \<open>putUint64\<close> and \<open>putZeros\<close> panic unless all their
  octets fit; \<open>putBytes\<close> panics only when the position is beyond the buffer, and
  advances by the full length.
\<close>

definition putFixed :: "u8 list \<Rightarrow> Writer \<Rightarrow> error + Writer" where
  "putFixed bs w =
     (if w_pos w + length bs > length (w_buf w) then Inl PanicIndex
      else Inr (w\<lparr>w_buf := store (w_buf w) (w_pos w) bs, w_pos := w_pos w + length bs\<rparr>))"

definition putUint16 :: "u16 \<Rightarrow> Writer \<Rightarrow> error + Writer" where
  "putUint16 v = putFixed (be16 v)"

definition putUint32 :: "u32 \<Rightarrow> Writer \<Rightarrow> error + Writer" where
  "putUint32 v = putFixed (be32 v)"

definition putUint64 :: "u64 \<Rightarrow> Writer \<Rightarrow> error + Writer" where
  "putUint64 v = putFixed (be64 v)"

definition putZeros :: "nat \<Rightarrow> Writer \<Rightarrow> error + Writer" where
  "putZeros n = putFixed (replicate n 0)"

definition putBytes :: "u8 list \<Rightarrow> Writer \<Rightarrow> error + Writer" where
  "putBytes p w =
     (if w_pos w > length (w_buf w) then Inl PanicIndex
      else Inr (w\<lparr>w_buf := store (w_buf w) (w_pos w) p, w_pos := w_pos w + length p\<rparr>))"

text \<open>Statements in sequence; the first panic ends the run.\<close>

fun runOps :: "(Writer \<Rightarrow> error + Writer) list \<Rightarrow> Writer \<Rightarrow> error + Writer" where
  "runOps [] w = Inr w"
| "runOps (f # fs) w = (case f w of Inl e \<Rightarrow> Inl e | Inr w' \<Rightarrow> runOps fs w')"

definition StartBox :: "u8 list \<Rightarrow> Writer \<Rightarrow> error + Writer" where
  "StartBox t w =
     (if length (w_stack w) \<ge> maxDepth then Inl PanicIndex
      else runOps [putUint32 0, putBytes t] (w\<lparr>w_stack := w_stack w @ [w_pos w]\<rparr>))"

definition StartFullBox :: "u8 list \<Rightarrow> u8 \<Rightarrow> u32 \<Rightarrow> Writer \<Rightarrow> error + Writer" where
  "StartFullBox t version flags =
     runOps [StartBox t, putUint32 (push_bit 24 (ucast version) OR (flags AND 0x00ffffff))]"

definition EndBox :: "Writer \<Rightarrow> error + Writer" where
  "EndBox w =
     (if w_stack w = [] then Inl PanicIndex
      else
        (let offset = last (w_stack w);
             sz = (word_of_nat (w_pos w - offset) :: u32)
         in if offset + 4 > length (w_buf w) then Inl PanicIndex
            else Inr (w\<lparr>w_stack := butlast (w_stack w),
                        w_buf := store (w_buf w) offset (be32 sz)\<rparr>)))"

text \<open>The typed writers that choose between the 32-bit and the 64-bit layout.\<close>

definition WriteMvhd :: "u32 \<Rightarrow> u64 \<Rightarrow> u32 \<Rightarrow> Writer \<Rightarrow> error + Writer" where
  "WriteMvhd timescale duration nextTrackId =
     runOps
       ((if duration > uint32Max then
           [StartFullBox (fourcc ''mvhd'') 1 0, putUint64 0, putUint64 0, putUint32 timescale,
            putUint64 duration]
         else
           [StartFullBox (fourcc ''mvhd'') 0 0, putUint32 0, putUint32 0, putUint32 timescale,
            putUint32 (ucast duration)])
        @ [putUint32 0x00010000, putUint16 0x0100, putZeros 10,
           putUint32 0x00010000, putZeros 4, putZeros 4, putZeros 4,
           putUint32 0x00010000, putZeros 4, putZeros 4, putZeros 4,
           putUint32 0x40000000, putZeros 24, putUint32 nextTrackId, EndBox])"

definition WriteTkhd :: "u32 \<Rightarrow> u32 \<Rightarrow> u64 \<Rightarrow> u32 \<Rightarrow> u32 \<Rightarrow> Writer \<Rightarrow> error + Writer" where
  "WriteTkhd flags trackId duration width height =
     runOps
       ((if duration > uint32Max then
           [StartFullBox (fourcc ''tkhd'') 1 flags, putUint64 0, putUint64 0, putUint32 trackId,
            putUint32 0, putUint64 duration]
         else
           [StartFullBox (fourcc ''tkhd'') 0 flags, putUint32 0, putUint32 0, putUint32 trackId,
            putUint32 0, putUint32 (ucast duration)])
        @ [putZeros 8, putUint16 0, putUint16 0, putUint16 0, putUint16 0,
           putUint32 0x00010000, putZeros 4, putZeros 4, putZeros 4,
           putUint32 0x00010000, putZeros 4, putZeros 4, putZeros 4,
           putUint32 0x40000000, putUint32 width, putUint32 height, EndBox])"

definition WriteMdhd :: "u32 \<Rightarrow> u64 \<Rightarrow> u16 \<Rightarrow> Writer \<Rightarrow> error + Writer" where
  "WriteMdhd timescale duration language =
     runOps
       ((if duration > uint32Max then
           [StartFullBox (fourcc ''mdhd'') 1 0, putUint64 0, putUint64 0, putUint32 timescale,
            putUint64 duration]
         else
           [StartFullBox (fourcc ''mdhd'') 0 0, putUint32 0, putUint32 0, putUint32 timescale,
            putUint32 (ucast duration)])
        @ [putUint16 language, putUint16 0, EndBox])"

definition WriteMehd :: "u64 \<Rightarrow> Writer \<Rightarrow> error + Writer" where
  "WriteMehd fragmentDuration =
     runOps
       ((if fragmentDuration > uint32Max then
           [StartFullBox (fourcc ''mehd'') 1 0, putUint64 fragmentDuration]
         else
           [StartFullBox (fourcc ''mehd'') 0 0, putUint32 (ucast fragmentDuration)])
        @ [EndBox])"

definition WriteTfdt :: "u64 \<Rightarrow> Writer \<Rightarrow> error + Writer" where
  "WriteTfdt baseMediaDecodeTime =
     runOps
       ((if baseMediaDecodeTime > uint32Max then
           [StartFullBox (fourcc ''tfdt'') 1 0, putUint64 baseMediaDecodeTime]
         else
           [StartFullBox (fourcc ''tfdt'') 0 0, putUint32 (ucast baseMediaDecodeTime)])
        @ [EndBox])"

record ElstEntry =
  SegmentDuration :: u64
  MediaTime :: i64
  MediaRateInt :: u16
  MediaRateFrac :: u16

text \<open>
  The test of \<open>WriteElst\<close> for the 64-bit layout (lines 880 to 886):
  \<open>e.SegmentDuration > uint32Max || e.MediaTime > int64(int32(e.MediaTime))\<close>
  for some entry.
\<close>

definition elstNeedsV1 :: "ElstEntry list \<Rightarrow> bool" where
  "elstNeedsV1 entries =
     list_ex (\<lambda>e. SegmentDuration e > uint32Max
                  \<or> (scast (ucast (MediaTime e) :: i32) :: i64) <s MediaTime e) entries"

definition WriteElst :: "ElstEntry list \<Rightarrow> Writer \<Rightarrow> error + Writer" where
  "WriteElst entries =
     (let v1 = elstNeedsV1 entries
      in runOps
           ([StartFullBox (fourcc ''elst'') (if v1 then 1 else 0) 0,
             putUint32 (word_of_nat (length entries))]
            @ concat (map (\<lambda>e.
                (if v1 then [putUint64 (SegmentDuration e), putUint64 (MediaTime e)]
                 else [putUint32 (ucast (SegmentDuration e)), putUint32 (ucast (MediaTime e))])
                @ [putUint16 (MediaRateInt e), putUint16 (MediaRateFrac e)]) entries)
            @ [EndBox]))"

text \<open>
  The octets written by a typed writer into a fresh buffer, \<open>w.Bytes()\<close>, when it
  does not panic.
\<close>

definition written_by :: "(Writer \<Rightarrow> error + Writer) \<Rightarrow> nat \<Rightarrow> u8 list option" where
  "written_by f cap =
     (case f (NewWriter (replicate cap 0)) of
        Inl e \<Rightarrow> None
      | Inr w \<Rightarrow> Some (take (w_pos w) (w_buf w)))"

text \<open>
  The widened fields in the words of the specification: an unsigned 64-bit field
  overflows 32 bits when it exceeds \<open>2^32 - 1\<close>, the signed media time of an edit
  when it lies outside the signed 32-bit range.
\<close>

definition spec_overflows_u32 :: "u64 \<Rightarrow> bool" where
  "spec_overflows_u32 v = (uint v > 2 ^ 32 - 1)"

definition spec_overflows_i32 :: "i64 \<Rightarrow> bool" where
  "spec_overflows_i32 v = (sint v < - (2 ^ 31) \<or> sint v > 2 ^ 31 - 1)"

text \<open>
  \<open>b\<close> is the moof that the stream writer builds for the fragment starting at
  \<open>sample\<close>: the output of \<open>writeMoof\<close> on the run that \<open>generateFragment\<close> returns
  there, for some sequence number.
\<close>

definition isMoofOf :: "Track \<Rightarrow> i64 \<Rightarrow> i64 \<Rightarrow> nat \<Rightarrow> u8 list \<Rightarrow> bool" where
  "isMoofOf track dtsOffset endTimeScaled sample b =
     (sample < length (Samples track) \<and>
      (\<exists>seqNum es rs tot nxt v.
          generateFragment track (int sample) endTimeScaled = Inr (es, rs, tot, nxt, v)
          \<and> es \<noteq> []
          \<and> b = writeMoof seqNum (TrackID track)
                  (ucast (DTS (Samples track ! sample) - dtsOffset)) es v))"

text \<open>The decode timestamps of the first \<open>k\<close> samples are chained.\<close>

definition chained :: "Sample list \<Rightarrow> nat \<Rightarrow> bool" where
  "chained ss k = (\<forall>j. j + 1 < k \<longrightarrow> DTS (ss ! j) + ucast (Duration (ss ! j)) = DTS (ss ! (j + 1)))"

section \<open>Properties of the sample-table reconstruction\<close>

lemma emitSample_DTS: "emitSample T i c = Inr (s, sdi) \<Longrightarrow> DTS s = dts c"
  by (auto simp: emitSample_def split: if_splits)

lemma dts_advance: "dts (advance T c s) = dts c + ucast (Duration s)"
  by (simp add: advance_def advanceSync_def advanceCtts_def advanceTime_def advanceChunk_def
      Let_def split: option.splits)

lemma chained_update:
  assumes "chained ss i" "i < length ss"
    "i > 0 \<longrightarrow> DTS (ss ! (i - 1)) + ucast (Duration (ss ! (i - 1))) = DTS s"
  shows "chained (ss[i := s]) (i + 1)"
  unfolding chained_def
proof (intro allI impI)
  fix j assume j: "j + 1 < i + 1"
  show "DTS (ss[i := s] ! j) + ucast (Duration (ss[i := s] ! j)) = DTS (ss[i := s] ! (j + 1))"
  proof (cases "j + 1 = i")
    case True
    then show ?thesis using assms by auto
  next
    case False
    then have "j + 1 < i" using j by simp
    then show ?thesis using assms by (simp add: chained_def)
  qed
qed

lemma sampleLoop_inv:
  assumes "sampleLoop T i c d samples = Inr (res, sdi)"
    and "length samples = length (sizes T)"
    and "chained samples i"
    and "i > 0 \<longrightarrow> DTS (samples ! (i - 1)) + ucast (Duration (samples ! (i - 1))) = dts c"
    and "i > 0 \<longrightarrow> DTS (samples ! 0) = 0"
    and "i = 0 \<longrightarrow> dts c = 0"
  shows "length res = length (sizes T) \<and> chained res (length res) \<and> (res \<noteq> [] \<longrightarrow> DTS (res ! 0) = 0)"
  using assms
proof (induction T i c d samples rule: sampleLoop.induct)
  case (1 T i c d samples)
  show ?case
  proof (cases "i \<ge> length (sizes T)")
    case True
    with "1.prems" have "res = samples" by (simp add: sampleLoop.simps)
    with "1.prems" True show ?thesis
      by (cases "i = 0") (auto simp: chained_def)
  next
    case False
    then have lt: "i < length (sizes T)" by simp
    from "1.prems"(1) False obtain s sdi' where em: "emitSample T i c = Inr (s, sdi')"
      by (subst (asm) sampleLoop.simps) (auto split: sum.splits)
    have ch: "chained (samples[i := s]) (i + 1)"
      using chained_update "1.prems" lt emitSample_DTS[OF em] by simp
    show ?thesis
    proof (cases "i + 1 \<ge> length (sizes T)")
      case True
      with "1.prems"(1) lt em have r: "res = samples[i := s]"
        by (subst (asm) sampleLoop.simps) simp
      have "i + 1 = length res" using True lt r "1.prems"(2) by simp
      moreover have "DTS (res ! 0) = 0"
        using r "1.prems" lt emitSample_DTS[OF em] by (cases "i = 0") auto
      ultimately show ?thesis using ch r "1.prems"(2) by simp
    next
      case F2: False
      with "1.prems"(1) lt em
      have rec: "sampleLoop T (i + 1) (advance T c s) sdi' (samples[i := s]) = Inr (res, sdi)"
        by (subst (asm) sampleLoop.simps) simp
      have p1: "length (samples[i := s]) = length (sizes T)"
        using "1.prems"(2) by simp
      have p3: "0 < i + 1 \<longrightarrow> DTS (samples[i := s] ! (i + 1 - 1))
          + ucast (Duration (samples[i := s] ! (i + 1 - 1))) = dts (advance T c s)"
        using lt "1.prems"(2) emitSample_DTS[OF em] by (simp add: dts_advance)
      have p4: "0 < i + 1 \<longrightarrow> DTS (samples[i := s] ! 0) = 0"
        using "1.prems" lt emitSample_DTS[OF em] by (cases "i = 0") auto
      have p5: "i + 1 = 0 \<longrightarrow> dts (advance T c s) = 0"
        by simp
      show ?thesis
        by (rule "1.IH"[OF False em refl F2 rec p1 ch p3 p4 p5])
    qed
  qed
qed

text \<open>
  Claim C1. Every sample array that \<open>buildSampleTable\<close> returns is chained in decode
  order: when it is not empty its first sample has decode timestamp 0, and for every
  index \<open>i\<close> with \<open>i + 1 < len(Samples)\<close> the next decode timestamp is
  \<open>Samples[i].DTS + int64(Samples[i].Duration)\<close>, in the \<open>int64\<close> arithmetic
  of the code.
\<close>

theorem C1_dts_chain:
  assumes "buildSampleTable stbl = Inr (samples, sdi)"
  shows "(samples \<noteq> [] \<longrightarrow> DTS (samples ! 0) = 0) \<and>
         (\<forall>i. i + 1 < length samples \<longrightarrow>
            DTS (samples ! i) + ucast (Duration (samples ! i)) = DTS (samples ! (i + 1)))"
proof -
  from assms obtain T where
    run: "sampleLoop T 0 initCursors 0 (replicate (length (sizes T)) zeroSample) = Inr (samples, sdi)"
    by (auto simp: buildSampleTable_def split: sum.splits)
  have "length samples = length (sizes T) \<and> chained samples (length samples)
      \<and> (samples \<noteq> [] \<longrightarrow> DTS (samples ! 0) = 0)"
    by (rule sampleLoop_inv[OF run]) (simp_all add: chained_def initCursors_def)
  then show ?thesis by (simp add: chained_def)
qed

theorem C1_dts_chain_witness:
  "buildSampleTable
      \<lparr>Stsz = Some [10, 20, 30],
       Stts = Some [\<lparr>stts_Count = 2, stts_Duration = 5\<rparr>, \<lparr>stts_Count = 1, stts_Duration = 7\<rparr>],
       Stsc = Some [\<lparr>FirstChunk = 1, SamplesPerChunk = 2, SampleDescriptionId = 1\<rparr>,
                    \<lparr>FirstChunk = 2, SamplesPerChunk = 1, SampleDescriptionId = 1\<rparr>],
       Co64 = None, Stco = Some [100, 200], Ctts = None, Stss = Some (Some [1, 3])\<rparr>
   = Inr ([\<lparr>Offset = 100, Size = 10, Duration = 5, DTS = 0, PresentationOffset = 0, Sync = True\<rparr>,
           \<lparr>Offset = 110, Size = 20, Duration = 5, DTS = 5, PresentationOffset = 0, Sync = False\<rparr>,
           \<lparr>Offset = 200, Size = 30, Duration = 7, DTS = 10, PresentationOffset = 0, Sync = True\<rparr>], 1)
   \<and> (0 :: i64) + ucast (5 :: u32) = 5 \<and> (5 :: i64) + ucast (5 :: u32) = 10"
proof -
  let ?S = "[\<lparr>Offset = 100, Size = 10, Duration = 5, DTS = 0, PresentationOffset = 0, Sync = True\<rparr>,
           \<lparr>Offset = 110, Size = 20, Duration = 5, DTS = 5, PresentationOffset = 0, Sync = False\<rparr>,
           \<lparr>Offset = 200, Size = 30, Duration = 7, DTS = 10 :: i64, PresentationOffset = 0, Sync = True\<rparr>]"
  have run: "buildSampleTable
      \<lparr>Stsz = Some [10, 20, 30],
       Stts = Some [\<lparr>stts_Count = 2, stts_Duration = 5\<rparr>, \<lparr>stts_Count = 1, stts_Duration = 7\<rparr>],
       Stsc = Some [\<lparr>FirstChunk = 1, SamplesPerChunk = 2, SampleDescriptionId = 1\<rparr>,
                    \<lparr>FirstChunk = 2, SamplesPerChunk = 1, SampleDescriptionId = 1\<rparr>],
       Co64 = None, Stco = Some [100, 200], Ctts = None, Stss = Some (Some [1, 3])\<rparr>
   = Inr (?S, 1)"
    by (simp add: buildSampleTable_def sampleLoop.simps emitSample_def advance_def advanceSync_def
        advanceCtts_def advanceTime_def advanceChunk_def initCursors_def zeroSample_def
        flattenSlice_def chunkOffsetTable_def lookupTables_def presentationOffsetAt_def syncAt_def Let_def)
  from C1_dts_chain [OF run]
  have "\<forall>i. i + 1 < length ?S \<longrightarrow>
            DTS (?S ! i) + ucast (Duration (?S ! i)) = DTS (?S ! (i + 1))"
    by blast
  from this [rule_format, of 0] this [rule_format, of 1] run show ?thesis
    by simp
qed

lemma sampleLoop_replay:
  assumes "sampleLoop T i c d samples = Inr (res, sdi)"
    and "length samples = length (sizes T)"
    and "cursorAt T i = Inr c"
  shows "length res = length (sizes T) \<and>
         (\<forall>k. i \<le> k \<and> k < length (sizes T) \<longrightarrow>
            (\<exists>c' d'. cursorAt T k = Inr c' \<and> emitSample T k c' = Inr (res ! k, d')))
         \<and> (\<forall>k < i. res ! k = samples ! k)"
  using assms
proof (induction T i c d samples rule: sampleLoop.induct)
  case (1 T i c d samples)
  show ?case
  proof (cases "i \<ge> length (sizes T)")
    case True
    with "1.prems" have "res = samples" by (simp add: sampleLoop.simps)
    with "1.prems" True show ?thesis by auto
  next
    case False
    then have lt: "i < length (sizes T)" by simp
    from "1.prems"(1) False obtain s sdi' where em: "emitSample T i c = Inr (s, sdi')"
      by (subst (asm) sampleLoop.simps) (auto split: sum.splits)
    show ?thesis
    proof (cases "i + 1 \<ge> length (sizes T)")
      case True
      with "1.prems"(1) lt em have r: "res = samples[i := s]"
        by (subst (asm) sampleLoop.simps) simp
      have "k = i" if "i \<le> k \<and> k < length (sizes T)" for k using True that by simp
      moreover have "res ! i = s" using r lt "1.prems"(2) by simp
      moreover have "\<forall>k < i. res ! k = samples ! k" using r by simp
      moreover have "length res = length (sizes T)" using r "1.prems"(2) by simp
      ultimately show ?thesis using "1.prems"(3) em by blast
    next
      case F2: False
      with "1.prems"(1) lt em
      have rec: "sampleLoop T (i + 1) (advance T c s) sdi' (samples[i := s]) = Inr (res, sdi)"
        by (subst (asm) sampleLoop.simps) simp
      have p1: "length (samples[i := s]) = length (sizes T)"
        using "1.prems"(2) by simp
      have p2: "cursorAt T (i + 1) = Inr (advance T c s)"
        using "1.prems"(3) em by simp
      note IH = "1.IH"[OF False em refl F2 rec p1 p2]
      have ri: "res ! i = s" using IH lt "1.prems"(2) by simp
      have "\<exists>c' d'. cursorAt T k = Inr c' \<and> emitSample T k c' = Inr (res ! k, d')"
        if "i \<le> k \<and> k < length (sizes T)" for k
      proof (cases "k = i")
        case True
        then show ?thesis using ri em "1.prems"(3) by auto
      next
        case False
        then have "i + 1 \<le> k \<and> k < length (sizes T)" using that by simp
        then show ?thesis using IH by blast
      qed
      moreover have "\<forall>k < i. res ! k = samples ! k"
        using IH by simp
      ultimately show ?thesis using IH by blast
    qed
  qed
qed

lemma lookupTables_sync: "lookupTables stbl = Inr T \<Longrightarrow> syncEntries T = flattenSlice (Stss stbl)"
  by (auto simp: lookupTables_def split: option.splits)

lemma emitSample_Sync: "emitSample T k c = Inr (s, d) \<Longrightarrow> Sync s = syncAt (syncEntries T) (syncIdx c) k"
  by (auto simp: emitSample_def split: if_splits)

lemma emitSample_in_range:
  "emitSample T k c = Inr (s, d) \<Longrightarrow>
     sampleToChunkIndex c < length (stscEntries T) \<and> decodingIdx c < length (sttsEntries T)
     \<and> chunk c < length (chunkOffsets T)"
  by (auto simp: emitSample_def split: if_splits)

lemma emitSample_PresentationOffset:
  "emitSample T k c = Inr (s, d) \<Longrightarrow>
     PresentationOffset s = presentationOffsetAt (cttsEntries T) (cttsIdx c)"
  by (auto simp: emitSample_def split: if_splits)

lemma buildSampleTable_replay:
  assumes "buildSampleTable stbl = Inr (samples, sdi)"
  shows "\<exists>T. lookupTables stbl = Inr T \<and> length samples = length (sizes T) \<and>
    (\<forall>k < length (sizes T).
        \<exists>c d. cursorAt T k = Inr c \<and> emitSample T k c = Inr (samples ! k, d))"
proof -
  from assms obtain T where T: "lookupTables stbl = Inr T" and
    run: "sampleLoop T 0 initCursors 0 (replicate (length (sizes T)) zeroSample) = Inr (samples, sdi)"
    by (auto simp: buildSampleTable_def split: sum.splits)
  have "length samples = length (sizes T) \<and>
         (\<forall>k. 0 \<le> k \<and> k < length (sizes T) \<longrightarrow>
            (\<exists>c' d'. cursorAt T k = Inr c' \<and> emitSample T k c' = Inr (samples ! k, d')))
         \<and> (\<forall>k < 0. samples ! k = replicate (length (sizes T)) zeroSample ! k)"
    by (rule sampleLoop_replay[OF run]) simp_all
  then show ?thesis using T by blast
qed

text \<open>
  Claim C5, as amended. On every built track, when the \<open>stss\<close> entries are absent
  (nil) every sample is marked sync; when they are present, sample 0 is marked sync
  exactly when the first entry is 1. The presence of an \<open>stss\<close> table alone does not
  make sample 0 a sync sample: the counterexample has the single entry 2.
\<close>

theorem C5_sync_marks:
  assumes "buildSampleTable stbl = Inr (samples, sdi)"
  shows "(flattenSlice (Stss stbl) = None \<longrightarrow> (\<forall>i < length samples. Sync (samples ! i))) \<and>
         (\<forall>es. flattenSlice (Stss stbl) = Some es \<and> samples \<noteq> [] \<longrightarrow>
            (Sync (samples ! 0) \<longleftrightarrow> es \<noteq> [] \<and> es ! 0 = 1))"
proof -
  from buildSampleTable_replay[OF assms] obtain T where T: "lookupTables stbl = Inr T"
    and len: "length samples = length (sizes T)"
    and rep: "\<forall>k < length (sizes T).
        \<exists>c d. cursorAt T k = Inr c \<and> emitSample T k c = Inr (samples ! k, d)"
    by blast
  have se: "syncEntries T = flattenSlice (Stss stbl)" by (rule lookupTables_sync[OF T])
  have a: "Sync (samples ! i)" if "flattenSlice (Stss stbl) = None" "i < length samples" for i
  proof -
    from rep that len obtain c d where "emitSample T i c = Inr (samples ! i, d)" by auto
    from emitSample_Sync[OF this] that se show ?thesis by (simp add: syncAt_def)
  qed
  have b: "Sync (samples ! 0) \<longleftrightarrow> es \<noteq> [] \<and> es ! 0 = 1"
    if "flattenSlice (Stss stbl) = Some es" "samples \<noteq> []" for es
  proof -
    from rep that len obtain d where "emitSample T 0 initCursors = Inr (samples ! 0, d)"
      by fastforce
    from emitSample_Sync[OF this] that se show ?thesis by (simp add: syncAt_def initCursors_def)
  qed
  show ?thesis using a b by blast
qed

lemma emitSample_succeeds:
  "sampleToChunkIndex c < length (stscEntries T) \<Longrightarrow> decodingIdx c < length (sttsEntries T)
     \<Longrightarrow> chunk c < length (chunkOffsets T) \<Longrightarrow> \<exists>s d. emitSample T k c = Inr (s, d)"
  by (simp add: emitSample_def)

lemma sampleLoop_succeeds:
  assumes "cursorAt T i = Inr c"
    and "\<forall>k. i \<le> k \<and> k < length (sizes T) \<longrightarrow>
           (\<exists>c'. cursorAt T k = Inr c' \<and> sampleToChunkIndex c' < length (stscEntries T)
                 \<and> decodingIdx c' < length (sttsEntries T) \<and> chunk c' < length (chunkOffsets T))"
  shows "\<exists>res sdi. sampleLoop T i c d samples = Inr (res, sdi)"
  using assms
proof (induction T i c d samples rule: sampleLoop.induct)
  case (1 T i c d samples)
  show ?case
  proof (cases "i \<ge> length (sizes T)")
    case True
    then show ?thesis by (subst sampleLoop.simps) simp
  next
    case False
    with "1.prems" have "sampleToChunkIndex c < length (stscEntries T)
        \<and> decodingIdx c < length (sttsEntries T) \<and> chunk c < length (chunkOffsets T)"
      by fastforce
    with emitSample_succeeds obtain s sdi' where em: "emitSample T i c = Inr (s, sdi')"
      by blast
    show ?thesis
    proof (cases "i + 1 \<ge> length (sizes T)")
      case True
      with False em show ?thesis by (subst sampleLoop.simps) simp
    next
      case F2: False
      have nxt: "cursorAt T (i + 1) = Inr (advance T c s)"
        using "1.prems"(1) em by simp
      have rest: "\<forall>k. i + 1 \<le> k \<and> k < length (sizes T) \<longrightarrow>
           (\<exists>c'. cursorAt T k = Inr c' \<and> sampleToChunkIndex c' < length (stscEntries T)
                 \<and> decodingIdx c' < length (sttsEntries T) \<and> chunk c' < length (chunkOffsets T))"
        using "1.prems"(2) by simp
      from "1.IH"[OF False em refl F2 nxt rest]
      obtain res sdi where "sampleLoop T (i + 1) (advance T c s) sdi' (samples[i := s]) = Inr (res, sdi)"
        by blast
      with False F2 em show ?thesis by (subst sampleLoop.simps) simp
    qed
  qed
qed

text \<open>
  Claim C6, as amended. A composition-offset cursor that would read past the end of
  \<open>ctts\<close> before the \<open>stsz\<close> sample count is reached does not reject the track:
  whenever the sample-to-chunk, time-to-sample and chunk-offset cursors are inside
  their tables at every sample, the build returns a sample array with one sample per
  \<open>stsz\<close> entry, and every sample at which the composition-offset cursor is past the
  end of \<open>ctts\<close> has presentation offset 0.
\<close>

theorem C6_ctts_overrun_tolerated:
  assumes "lookupTables stbl = Inr T"
    and "\<forall>k < length (sizes T).
           \<exists>c. cursorAt T k = Inr c \<and> sampleToChunkIndex c < length (stscEntries T)
               \<and> decodingIdx c < length (sttsEntries T) \<and> chunk c < length (chunkOffsets T)"
  shows "\<exists>samples sdi.
           buildSampleTable stbl = Inr (samples, sdi)
           \<and> length samples = length (sizes T)
           \<and> (\<forall>k c es. k < length (sizes T) \<and> cursorAt T k = Inr c
                  \<and> cttsEntries T = Some es \<and> length es \<le> cttsIdx c
                \<longrightarrow> PresentationOffset (samples ! k) = 0)"
proof -
  have "\<exists>res sdi. sampleLoop T 0 initCursors 0 (replicate (length (sizes T)) zeroSample)
          = Inr (res, sdi)"
    by (rule sampleLoop_succeeds) (use assms(2) in auto)
  with assms(1) obtain samples sdi where run: "buildSampleTable stbl = Inr (samples, sdi)"
    by (auto simp: buildSampleTable_def)
  from buildSampleTable_replay[OF run] assms(1)
  have len: "length samples = length (sizes T)"
    and rep: "\<forall>k < length (sizes T).
        \<exists>c d. cursorAt T k = Inr c \<and> emitSample T k c = Inr (samples ! k, d)"
    by auto
  have "PresentationOffset (samples ! k) = 0"
    if "k < length (sizes T)" "cursorAt T k = Inr c" "cttsEntries T = Some es" "length es \<le> cttsIdx c"
    for k c es
  proof -
    from rep that(1,2) obtain d where "emitSample T k c = Inr (samples ! k, d)" by fastforce
    from emitSample_PresentationOffset[OF this] that(3,4) show ?thesis
      by (simp add: presentationOffsetAt_def)
  qed
  with run len show ?thesis by blast
qed

text \<open>
  The reads of \<open>stscEntries\<close>, \<open>sttsEntries\<close> and \<open>chunkOffsets\<close> are index
  expressions without a test: the only way the sample loop fails is the run-time panic,
  and a cursor past the end of one of these three tables ends the build in it.
\<close>

lemma sampleLoop_error: "sampleLoop T i c d samples = Inl e \<Longrightarrow> e = PanicIndex"
proof (induction T i c d samples rule: sampleLoop.induct)
  case (1 T i c d samples)
  from "1.prems" have lt: "\<not> i \<ge> length (sizes T)"
    by (subst (asm) sampleLoop.simps) (auto split: if_splits)
  show ?case
  proof (cases "emitSample T i c")
    case (Inl e')
    with "1.prems" lt have "e = e'" by (subst (asm) sampleLoop.simps) simp
    with Inl show ?thesis by (auto simp: emitSample_def split: if_splits)
  next
    case (Inr p)
    obtain s sdi where p: "p = (s, sdi)" by (cases p)
    with Inr "1.prems" lt have F2: "\<not> i + 1 \<ge> length (sizes T)"
      and rec: "sampleLoop T (i + 1) (advance T c s) sdi (samples[i := s]) = Inl e"
      by (subst (asm) sampleLoop.simps; simp split: if_splits)+
    from Inr p have em: "emitSample T i c = Inr (s, sdi)" by simp
    show ?thesis by (rule "1.IH"[OF lt em refl F2 rec])
  qed
qed

lemma buildSampleTable_overrun_panics:
  assumes "lookupTables stbl = Inr T" and "k < length (sizes T)" and "cursorAt T k = Inr c"
    and "sampleToChunkIndex c \<ge> length (stscEntries T) \<or> decodingIdx c \<ge> length (sttsEntries T)
            \<or> chunk c \<ge> length (chunkOffsets T)"
  shows "buildSampleTable stbl = Inl PanicIndex"
proof (cases "buildSampleTable stbl")
  case (Inl e)
  with assms(1) have "sampleLoop T 0 initCursors 0 (replicate (length (sizes T)) zeroSample) = Inl e"
    by (simp add: buildSampleTable_def)
  from sampleLoop_error[OF this] Inl show ?thesis by simp
next
  case (Inr p)
  obtain samples sdi where "p = (samples, sdi)" by (cases p)
  with Inr have b: "buildSampleTable stbl = Inr (samples, sdi)" by simp
  from buildSampleTable_replay[OF b] assms(1) have
    "\<forall>k < length (sizes T). \<exists>c d. cursorAt T k = Inr c \<and> emitSample T k c = Inr (samples ! k, d)"
    by auto
  with assms(2,3) obtain d where "emitSample T k c = Inr (samples ! k, d)" by fastforce
  from emitSample_in_range[OF this] assms(4) show ?thesis by simp
qed

lemmas build_eval = buildSampleTable_def sampleLoop.simps emitSample_def advance_def advanceSync_def
        advanceCtts_def advanceTime_def advanceChunk_def initCursors_def zeroSample_def
        flattenSlice_def chunkOffsetTable_def lookupTables_def presentationOffsetAt_def syncAt_def Let_def

text \<open>
  Claim C5 as stated fails: an \<open>stss\<close> table is present, the track is built, and
  sample 0 is not marked sync.
\<close>

theorem C5_sample0_counterexample:
  "Stss \<lparr>Stsz = Some [10, 10], Stts = Some [\<lparr>stts_Count = 2, stts_Duration = 5\<rparr>],
       Stsc = Some [\<lparr>FirstChunk = 1, SamplesPerChunk = 2, SampleDescriptionId = 1\<rparr>],
       Co64 = None, Stco = Some [100], Ctts = None, Stss = Some (Some [2])\<rparr> = Some (Some [2])
   \<and> buildSampleTable
      \<lparr>Stsz = Some [10, 10], Stts = Some [\<lparr>stts_Count = 2, stts_Duration = 5\<rparr>],
       Stsc = Some [\<lparr>FirstChunk = 1, SamplesPerChunk = 2, SampleDescriptionId = 1\<rparr>],
       Co64 = None, Stco = Some [100], Ctts = None, Stss = Some (Some [2])\<rparr>
     = Inr ([\<lparr>Offset = 100, Size = 10, Duration = 5, DTS = 0, PresentationOffset = 0, Sync = False\<rparr>,
             \<lparr>Offset = 110, Size = 10, Duration = 5, DTS = 5, PresentationOffset = 0, Sync = True\<rparr>], 1)"
  by (simp add: build_eval)

text \<open>
  Claim C6 as stated fails: at sample 1 of 2 the composition-offset cursor is past the
  end of the one-entry \<open>ctts\<close> table, and the build returns a sample array.
\<close>

theorem C6_ctts_counterexample:
  "cursorAt \<lparr>sizes = [10, 10], sttsEntries = [\<lparr>stts_Count = 2, stts_Duration = 5\<rparr>],
       stscEntries = [\<lparr>FirstChunk = 1, SamplesPerChunk = 2, SampleDescriptionId = 1\<rparr>],
       chunkOffsets = [100],
       cttsEntries = Some [\<lparr>ctts_Count = 1, CompositionOffset = 7\<rparr>], syncEntries = None\<rparr> 1
     = Inr \<lparr>sampleInChunk = 1, chunk = 0, offsetInChunk = 10, sampleToChunkIndex = 0, dts = 5,
         decodingIdx = 0, decodingOff = 1, cttsIdx = 1, cttsOff = 0, syncIdx = 1\<rparr>
   \<and> buildSampleTable
      \<lparr>Stsz = Some [10, 10], Stts = Some [\<lparr>stts_Count = 2, stts_Duration = 5\<rparr>],
       Stsc = Some [\<lparr>FirstChunk = 1, SamplesPerChunk = 2, SampleDescriptionId = 1\<rparr>],
       Co64 = None, Stco = Some [100],
       Ctts = Some (Some [\<lparr>ctts_Count = 1, CompositionOffset = 7\<rparr>]), Stss = None\<rparr>
     = Inr ([\<lparr>Offset = 100, Size = 10, Duration = 5, DTS = 0, PresentationOffset = 7, Sync = True\<rparr>,
             \<lparr>Offset = 110, Size = 10, Duration = 5, DTS = 5, PresentationOffset = 0, Sync = True\<rparr>], 1)"
  by (simp add: build_eval)


theorem C5_sync_marks_witness:
  "buildSampleTable
      \<lparr>Stsz = Some [10, 10], Stts = Some [\<lparr>stts_Count = 2, stts_Duration = 5\<rparr>],
       Stsc = Some [\<lparr>FirstChunk = 1, SamplesPerChunk = 2, SampleDescriptionId = 1\<rparr>],
       Co64 = None, Stco = Some [100],
       Ctts = Some (Some [\<lparr>ctts_Count = 1, CompositionOffset = 7\<rparr>]), Stss = None\<rparr>
     = Inr ([\<lparr>Offset = 100, Size = 10, Duration = 5, DTS = 0, PresentationOffset = 7, Sync = True\<rparr>,
             \<lparr>Offset = 110, Size = 10, Duration = 5, DTS = 5, PresentationOffset = 0, Sync = True\<rparr>], 1)
   \<and> Sync ([\<lparr>Offset = 100, Size = 10, Duration = 5, DTS = 0, PresentationOffset = 7, Sync = True\<rparr>,
             \<lparr>Offset = 110, Size = 10, Duration = 5, DTS = 5, PresentationOffset = 0, Sync = True\<rparr>] ! 0)
   \<and> Sync ([\<lparr>Offset = 100, Size = 10, Duration = 5, DTS = 0, PresentationOffset = 7, Sync = True\<rparr>,
             \<lparr>Offset = 110, Size = 10, Duration = 5, DTS = 5, PresentationOffset = 0, Sync = True\<rparr>] ! 1)
   \<and> buildSampleTable
      \<lparr>Stsz = Some [10, 20, 30],
       Stts = Some [\<lparr>stts_Count = 2, stts_Duration = 5\<rparr>, \<lparr>stts_Count = 1, stts_Duration = 7\<rparr>],
       Stsc = Some [\<lparr>FirstChunk = 1, SamplesPerChunk = 2, SampleDescriptionId = 1\<rparr>,
                    \<lparr>FirstChunk = 2, SamplesPerChunk = 1, SampleDescriptionId = 1\<rparr>],
       Co64 = None, Stco = Some [100, 200], Ctts = None, Stss = Some (Some [1, 3])\<rparr>
     = Inr ([\<lparr>Offset = 100, Size = 10, Duration = 5, DTS = 0, PresentationOffset = 0, Sync = True\<rparr>,
           \<lparr>Offset = 110, Size = 20, Duration = 5, DTS = 5, PresentationOffset = 0, Sync = False\<rparr>,
           \<lparr>Offset = 200, Size = 30, Duration = 7, DTS = 10, PresentationOffset = 0, Sync = True\<rparr>], 1)
   \<and> Sync ([\<lparr>Offset = 100, Size = 10, Duration = 5, DTS = 0, PresentationOffset = 0, Sync = True\<rparr>,
           \<lparr>Offset = 110, Size = 20, Duration = 5, DTS = 5, PresentationOffset = 0, Sync = False\<rparr>,
           \<lparr>Offset = 200, Size = 30, Duration = 7, DTS = 10, PresentationOffset = 0, Sync = True\<rparr>] ! 0)"
proof -
  have run1: "buildSampleTable
      \<lparr>Stsz = Some [10, 10], Stts = Some [\<lparr>stts_Count = 2, stts_Duration = 5\<rparr>],
       Stsc = Some [\<lparr>FirstChunk = 1, SamplesPerChunk = 2, SampleDescriptionId = 1\<rparr>],
       Co64 = None, Stco = Some [100],
       Ctts = Some (Some [\<lparr>ctts_Count = 1, CompositionOffset = 7\<rparr>]), Stss = None\<rparr>
     = Inr ([\<lparr>Offset = 100, Size = 10, Duration = 5, DTS = 0, PresentationOffset = 7, Sync = True\<rparr>,
             \<lparr>Offset = 110, Size = 10, Duration = 5, DTS = 5, PresentationOffset = 0, Sync = True\<rparr>], 1)"
    by (simp add: build_eval)
  have run2: "buildSampleTable
      \<lparr>Stsz = Some [10, 20, 30],
       Stts = Some [\<lparr>stts_Count = 2, stts_Duration = 5\<rparr>, \<lparr>stts_Count = 1, stts_Duration = 7\<rparr>],
       Stsc = Some [\<lparr>FirstChunk = 1, SamplesPerChunk = 2, SampleDescriptionId = 1\<rparr>,
                    \<lparr>FirstChunk = 2, SamplesPerChunk = 1, SampleDescriptionId = 1\<rparr>],
       Co64 = None, Stco = Some [100, 200], Ctts = None, Stss = Some (Some [1, 3])\<rparr>
     = Inr ([\<lparr>Offset = 100, Size = 10, Duration = 5, DTS = 0, PresentationOffset = 0, Sync = True\<rparr>,
           \<lparr>Offset = 110, Size = 20, Duration = 5, DTS = 5, PresentationOffset = 0, Sync = False\<rparr>,
           \<lparr>Offset = 200, Size = 30, Duration = 7, DTS = 10, PresentationOffset = 0, Sync = True\<rparr>], 1)"
    by (simp add: build_eval)
  from C5_sync_marks [OF run1]
  have "\<forall>i < length [\<lparr>Offset = 100, Size = 10, Duration = 5, DTS = 0, PresentationOffset = 7, Sync = True\<rparr>,
             \<lparr>Offset = 110, Size = 10, Duration = 5, DTS = 5, PresentationOffset = 0, Sync = True\<rparr>]. Sync ([\<lparr>Offset = 100, Size = 10, Duration = 5, DTS = 0, PresentationOffset = 7, Sync = True\<rparr>,
             \<lparr>Offset = 110, Size = 10, Duration = 5, DTS = 5, PresentationOffset = 0, Sync = True\<rparr>] ! i)"
    by (simp add: flattenSlice_def)
  then have a: "Sync ([\<lparr>Offset = 100, Size = 10, Duration = 5, DTS = 0, PresentationOffset = 7, Sync = True\<rparr>,
             \<lparr>Offset = 110, Size = 10, Duration = 5, DTS = 5, PresentationOffset = 0, Sync = True\<rparr>] ! 0) \<and> Sync ([\<lparr>Offset = 100, Size = 10, Duration = 5, DTS = 0, PresentationOffset = 7, Sync = True\<rparr>,
             \<lparr>Offset = 110, Size = 10, Duration = 5, DTS = 5, PresentationOffset = 0, Sync = True\<rparr>] ! 1)"
    by simp
  from C5_sync_marks [OF run2]
  have b: "Sync ([\<lparr>Offset = 100, Size = 10, Duration = 5, DTS = 0, PresentationOffset = 0, Sync = True\<rparr>,
           \<lparr>Offset = 110, Size = 20, Duration = 5, DTS = 5, PresentationOffset = 0, Sync = False\<rparr>,
           \<lparr>Offset = 200, Size = 30, Duration = 7, DTS = 10, PresentationOffset = 0, Sync = True\<rparr>] ! 0)"
    by (simp add: flattenSlice_def)
  from run1 a run2 b show ?thesis by blast
qed

theorem C6_ctts_overrun_tolerated_witness:
  "lookupTables
      \<lparr>Stsz = Some [10, 10], Stts = Some [\<lparr>stts_Count = 2, stts_Duration = 5\<rparr>],
       Stsc = Some [\<lparr>FirstChunk = 1, SamplesPerChunk = 2, SampleDescriptionId = 1\<rparr>],
       Co64 = None, Stco = Some [100],
       Ctts = Some (Some [\<lparr>ctts_Count = 1, CompositionOffset = 7\<rparr>]), Stss = None\<rparr>
     = Inr \<lparr>sizes = [10, 10], sttsEntries = [\<lparr>stts_Count = 2, stts_Duration = 5\<rparr>],
       stscEntries = [\<lparr>FirstChunk = 1, SamplesPerChunk = 2, SampleDescriptionId = 1\<rparr>],
       chunkOffsets = [100],
       cttsEntries = Some [\<lparr>ctts_Count = 1, CompositionOffset = 7\<rparr>], syncEntries = None\<rparr>
   \<and> cursorAt \<lparr>sizes = [10, 10], sttsEntries = [\<lparr>stts_Count = 2, stts_Duration = 5\<rparr>],
       stscEntries = [\<lparr>FirstChunk = 1, SamplesPerChunk = 2, SampleDescriptionId = 1\<rparr>],
       chunkOffsets = [100],
       cttsEntries = Some [\<lparr>ctts_Count = 1, CompositionOffset = 7\<rparr>], syncEntries = None\<rparr> 1
     = Inr \<lparr>sampleInChunk = 1, chunk = 0, offsetInChunk = 10, sampleToChunkIndex = 0, dts = 5,
         decodingIdx = 0, decodingOff = 1, cttsIdx = 1, cttsOff = 0, syncIdx = 1\<rparr>
   \<and> buildSampleTable
      \<lparr>Stsz = Some [10, 10], Stts = Some [\<lparr>stts_Count = 2, stts_Duration = 5\<rparr>],
       Stsc = Some [\<lparr>FirstChunk = 1, SamplesPerChunk = 2, SampleDescriptionId = 1\<rparr>],
       Co64 = None, Stco = Some [100],
       Ctts = Some (Some [\<lparr>ctts_Count = 1, CompositionOffset = 7\<rparr>]), Stss = None\<rparr>
     = Inr ([\<lparr>Offset = 100, Size = 10, Duration = 5, DTS = 0, PresentationOffset = 7, Sync = True\<rparr>,
             \<lparr>Offset = 110, Size = 10, Duration = 5, DTS = 5, PresentationOffset = 0, Sync = True\<rparr>], 1)
   \<and> PresentationOffset ([\<lparr>Offset = 100, Size = 10, Duration = 5, DTS = 0, PresentationOffset = 7, Sync = True\<rparr>,
             \<lparr>Offset = 110, Size = 10, Duration = 5, DTS = 5, PresentationOffset = 0, Sync = True\<rparr>] ! 1) = 0"
proof -
  let ?X = "\<lparr>Stsz = Some [10, 10], Stts = Some [\<lparr>stts_Count = 2, stts_Duration = 5\<rparr>],
       Stsc = Some [\<lparr>FirstChunk = 1, SamplesPerChunk = 2, SampleDescriptionId = 1\<rparr>],
       Co64 = None, Stco = Some [100],
       Ctts = Some (Some [\<lparr>ctts_Count = 1, CompositionOffset = 7\<rparr>]), Stss = None\<rparr>"
  let ?T = "\<lparr>sizes = [10, 10], sttsEntries = [\<lparr>stts_Count = 2, stts_Duration = 5\<rparr>],
       stscEntries = [\<lparr>FirstChunk = 1, SamplesPerChunk = 2, SampleDescriptionId = 1\<rparr>],
       chunkOffsets = [100],
       cttsEntries = Some [\<lparr>ctts_Count = 1, CompositionOffset = 7\<rparr>], syncEntries = None\<rparr>"
  let ?c = "\<lparr>sampleInChunk = 1, chunk = 0, offsetInChunk = 10, sampleToChunkIndex = 0, dts = 5,
         decodingIdx = 0, decodingOff = 1, cttsIdx = 1, cttsOff = 0, syncIdx = 1\<rparr>"
  let ?S = "[\<lparr>Offset = 100, Size = 10, Duration = 5, DTS = 0, PresentationOffset = 7, Sync = True\<rparr>,
             \<lparr>Offset = 110, Size = 10, Duration = 5, DTS = 5, PresentationOffset = 0, Sync = True\<rparr>]"
  have l: "lookupTables ?X = Inr ?T"
    by (simp add: build_eval)
  have c0: "cursorAt ?T 0 = Inr initCursors"
    by simp
  have c1: "cursorAt ?T 1 = Inr ?c"
    by (simp add: build_eval)
  have inside: "\<forall>k < length (sizes ?T).
           \<exists>c. cursorAt ?T k = Inr c \<and> sampleToChunkIndex c < length (stscEntries ?T)
               \<and> decodingIdx c < length (sttsEntries ?T) \<and> chunk c < length (chunkOffsets ?T)"
  proof (intro allI impI)
    fix k assume "k < length (sizes ?T)"
    then consider "k = 0" | "k = 1" by fastforce
    then show "\<exists>c. cursorAt ?T k = Inr c \<and> sampleToChunkIndex c < length (stscEntries ?T)
               \<and> decodingIdx c < length (sttsEntries ?T) \<and> chunk c < length (chunkOffsets ?T)"
    proof cases
      case 1
      with c0 show ?thesis by (simp add: initCursors_def)
    next
      case 2
      with c1 show ?thesis by simp
    qed
  qed
  from C6_ctts_overrun_tolerated [OF l inside] obtain samples sdi where
    run: "buildSampleTable ?X = Inr (samples, sdi)"
    and po: "\<forall>k c es. k < length (sizes ?T) \<and> cursorAt ?T k = Inr c
                  \<and> cttsEntries ?T = Some es \<and> length es \<le> cttsIdx c
                \<longrightarrow> PresentationOffset (samples ! k) = 0"
    by blast
  from po [rule_format, of 1 ?c "[\<lparr>ctts_Count = 1, CompositionOffset = 7\<rparr>]"] c1
  have z: "PresentationOffset (samples ! 1) = 0"
    by simp
  have ev: "buildSampleTable ?X = Inr (?S, 1)"
    by (simp add: build_eval)
  with run have "samples = ?S" by simp
  with z l c1 ev show ?thesis by simp
qed


section \<open>Properties of the fragment boundaries\<close>

lemma fragmentEnd_props:
  "l \<le> length ss \<Longrightarrow>
   l \<le> fragmentEnd ss first sd th ets l \<and> fragmentEnd ss first sd th ets l \<le> length ss
   \<and> (\<forall>j. l \<le> j \<and> j < fragmentEnd ss first sd th ets l \<longrightarrow>
          \<not> ((0 <s ets \<and> ets \<le>s pts (ss ! j))
             \<or> (ets = 0 \<and> first < j \<and> Sync (ss ! j) \<and> th \<le>s DTS (ss ! j) - sd)))
   \<and> (fragmentEnd ss first sd th ets l < length ss \<longrightarrow>
          ((0 <s ets \<and> ets \<le>s pts (ss ! fragmentEnd ss first sd th ets l))
           \<or> (ets = 0 \<and> first < fragmentEnd ss first sd th ets l
               \<and> Sync (ss ! fragmentEnd ss first sd th ets l)
               \<and> th \<le>s DTS (ss ! fragmentEnd ss first sd th ets l) - sd)))"
proof (induction ss first sd th ets l rule: fragmentEnd.induct)
  case (1 ss first sd th ets l)
  let ?stop = "\<lambda>j. (0 <s ets \<and> ets \<le>s pts (ss ! j))
             \<or> (ets = 0 \<and> first < j \<and> Sync (ss ! j) \<and> th \<le>s DTS (ss ! j) - sd)"
  show ?case
  proof (cases "l < length ss \<and> \<not> ?stop l")
    case True
    then have e: "fragmentEnd ss first sd th ets l = fragmentEnd ss first sd th ets (l + 1)"
      by (subst fragmentEnd.simps) auto
    from True have IH: "l + 1 \<le> fragmentEnd ss first sd th ets (l + 1)
      \<and> fragmentEnd ss first sd th ets (l + 1) \<le> length ss
      \<and> (\<forall>j. l + 1 \<le> j \<and> j < fragmentEnd ss first sd th ets (l + 1) \<longrightarrow> \<not> ?stop j)
      \<and> (fragmentEnd ss first sd th ets (l + 1) < length ss \<longrightarrow>
            ?stop (fragmentEnd ss first sd th ets (l + 1)))"
      using "1.IH" by auto
    have "\<not> ?stop j" if "l \<le> j \<and> j < fragmentEnd ss first sd th ets (l + 1)" for j
    proof (cases "j = l")
      case True
      with \<open>l < length ss \<and> \<not> ?stop l\<close> show ?thesis by blast
    next
      case False
      with that have "l + 1 \<le> j \<and> j < fragmentEnd ss first sd th ets (l + 1)" by simp
      with IH show ?thesis by blast
    qed
    with IH show ?thesis unfolding e by auto
  next
    case False
    then have e: "fragmentEnd ss first sd th ets l = l"
      by (subst fragmentEnd.simps) auto
    from False "1.prems" show ?thesis unfolding e by auto
  qed
qed

lemma foldl_runStep_entries:
  "fst (foldl runStep (es, tot, v) sel) = es @ map trunEntryOf sel"
  by (induction sel arbitrary: es tot v) (auto simp: runStep_def)

lemma foldl_runStep_version:
  "snd (snd (foldl runStep (es, tot, v) sel))
     = (if \<exists>s \<in> set sel. PresentationOffset s <s 0 then 1 else v)"
  by (induction sel arbitrary: es tot v) (auto simp: runStep_def)


lemma generateFragment_result:
  fixes ets :: i64
  assumes "first < length (Samples track)"
  defines "nxt \<equiv> fragmentEnd (Samples track) first (DTS (Samples track ! first))
                    (ucast (TimeScale track) * minFragmentDuration) ets first"
  shows "\<exists>rs tot.
     generateFragment track (int first) ets
       = Inr (map trunEntryOf (take (nxt - first) (drop first (Samples track))), rs, tot, int nxt,
              if \<exists>s \<in> set (take (nxt - first) (drop first (Samples track))).
                   PresentationOffset s <s 0 then 1 else 0)"
proof (cases "nxt - first = 0")
  case True
  then show ?thesis using assms(1) unfolding generateFragment_def nxt_def
    by (simp add: Let_def)
next
  case False
  then show ?thesis using assms(1) unfolding generateFragment_def nxt_def
    by (simp add: Let_def foldl_runStep_entries foldl_runStep_version)
qed

lemma generateFragment_boundary:
  assumes "first < length (Samples track)"
  shows "\<exists>es rs tot nxt v.
     generateFragment track (int first) ets = Inr (es, rs, tot, int nxt, v)
     \<and> first \<le> nxt \<and> nxt \<le> length (Samples track)
     \<and> (\<forall>j. first \<le> j \<and> j < nxt \<longrightarrow> \<not> spec_stop track first ets j)
     \<and> (nxt < length (Samples track) \<longrightarrow> spec_stop track first ets nxt)
     \<and> es = map trunEntryOf (take (nxt - first) (drop first (Samples track)))"
proof -
  define nxt where "nxt = fragmentEnd (Samples track) first (DTS (Samples track ! first))
                    (ucast (TimeScale track) * minFragmentDuration) ets first"
  from generateFragment_result[OF assms, of ets] obtain rs tot v where
    gen: "generateFragment track (int first) ets
       = Inr (map trunEntryOf (take (nxt - first) (drop first (Samples track))), rs, tot, int nxt, v)"
    unfolding nxt_def by blast
  let ?stop = "\<lambda>j. (0 <s ets \<and> ets \<le>s pts (Samples track ! j))
             \<or> (ets = 0 \<and> first < j \<and> Sync (Samples track ! j)
                 \<and> ucast (TimeScale track) * minFragmentDuration
                       \<le>s DTS (Samples track ! j) - DTS (Samples track ! first))"
  have eq: "spec_stop track first ets j = ?stop j" for j
    by (simp add: spec_stop_def pts_def minFragmentDuration_def Let_def)
  from assms have "first \<le> length (Samples track)" by simp
  from fragmentEnd_props[OF this, of first "DTS (Samples track ! first)"
      "ucast (TimeScale track) * minFragmentDuration" ets]
  have "first \<le> nxt \<and> nxt \<le> length (Samples track)
     \<and> (\<forall>j. first \<le> j \<and> j < nxt \<longrightarrow> \<not> ?stop j)
     \<and> (nxt < length (Samples track) \<longrightarrow> ?stop nxt)"
    unfolding nxt_def by blast
  then have "first \<le> nxt \<and> nxt \<le> length (Samples track)
     \<and> (\<forall>j. first \<le> j \<and> j < nxt \<longrightarrow> \<not> spec_stop track first ets j)
     \<and> (nxt < length (Samples track) \<longrightarrow> spec_stop track first ets nxt)"
    unfolding eq .
  with gen show ?thesis by blast
qed


text \<open>
  Claim C2. For every track, every starting index \<open>first\<close> inside the track and every
  end time, \<open>generateFragment\<close> returns as next sample index the first index at or
  after \<open>first\<close> where the stop condition of the specification holds (the length of
  the track when there is none), and its run holds exactly the samples from
  \<open>first\<close> up to, and excluding, that index. At a starting index at or past the end
  of the track the run is empty.
\<close>

theorem C2_fragment_boundary:
  "(first < length (Samples track) \<longrightarrow>
      (\<exists>es rs tot nxt v.
         generateFragment track (int first) ets = Inr (es, rs, tot, int nxt, v)
         \<and> first \<le> nxt \<and> nxt \<le> length (Samples track)
         \<and> (\<forall>j. first \<le> j \<and> j < nxt \<longrightarrow> \<not> spec_stop track first ets j)
         \<and> (nxt < length (Samples track) \<longrightarrow> spec_stop track first ets nxt)
         \<and> es = map trunEntryOf (take (nxt - first) (drop first (Samples track)))))
   \<and> (int (length (Samples track)) \<le> firstSample \<longrightarrow>
        generateFragment track firstSample ets = Inr ([], [], 0, firstSample, 0))"
  using generateFragment_boundary[of first track ets]
  by (simp add: generateFragment_def)

lemmas fragment_eval = generateFragment_def fragmentEnd.simps runStep_def rangeStep_def
  trunEntryOf_def pts_def minFragmentDuration_def spec_stop_def Let_def

theorem C2_fragment_boundary_witness:
  "generateFragment
      \<lparr>TrackID = 1, TimeScale = 10, Codec = ''avc1'', Mime = ''video/mp4'',
        Samples = [\<lparr>Offset = 100, Size = 10, Duration = 5, DTS = 0, PresentationOffset = 0, Sync = True\<rparr>,
                   \<lparr>Offset = 110, Size = 20, Duration = 5, DTS = 5, PresentationOffset = 0, Sync = False\<rparr>,
                   \<lparr>Offset = 200, Size = 30, Duration = 5, DTS = 10, PresentationOffset = 0, Sync = True\<rparr>,
                   \<lparr>Offset = 230, Size = 40, Duration = 5, DTS = 15, PresentationOffset = -1, Sync = False\<rparr>],
        initBuf = [], defaultSampleDescriptionIndex = 1\<rparr> 0 0
    = Inr ([\<lparr>SampleDuration = 5, SampleSize = 10, SampleFlags = 0x2000000, SampleCompositionTimeOffset = 0\<rparr>,
            \<lparr>SampleDuration = 5, SampleSize = 20, SampleFlags = 0x1010000, SampleCompositionTimeOffset = 0\<rparr>],
           [\<lparr>Start = 100, End = 130\<rparr>], 30, 2, 0)
   \<and> spec_stop
      \<lparr>TrackID = 1, TimeScale = 10, Codec = ''avc1'', Mime = ''video/mp4'',
        Samples = [\<lparr>Offset = 100, Size = 10, Duration = 5, DTS = 0, PresentationOffset = 0, Sync = True\<rparr>,
                   \<lparr>Offset = 110, Size = 20, Duration = 5, DTS = 5, PresentationOffset = 0, Sync = False\<rparr>,
                   \<lparr>Offset = 200, Size = 30, Duration = 5, DTS = 10, PresentationOffset = 0, Sync = True\<rparr>,
                   \<lparr>Offset = 230, Size = 40, Duration = 5, DTS = 15, PresentationOffset = -1, Sync = False\<rparr>],
        initBuf = [], defaultSampleDescriptionIndex = 1\<rparr> 0 0 2
   \<and> generateFragment
      \<lparr>TrackID = 1, TimeScale = 10, Codec = ''avc1'', Mime = ''video/mp4'',
        Samples = [\<lparr>Offset = 100, Size = 10, Duration = 5, DTS = 0, PresentationOffset = 0, Sync = True\<rparr>,
                   \<lparr>Offset = 110, Size = 20, Duration = 5, DTS = 5, PresentationOffset = 0, Sync = False\<rparr>,
                   \<lparr>Offset = 200, Size = 30, Duration = 5, DTS = 10, PresentationOffset = 0, Sync = True\<rparr>,
                   \<lparr>Offset = 230, Size = 40, Duration = 5, DTS = 15, PresentationOffset = -1, Sync = False\<rparr>],
        initBuf = [], defaultSampleDescriptionIndex = 1\<rparr> 2 12
    = Inr ([\<lparr>SampleDuration = 5, SampleSize = 30, SampleFlags = 0x2000000, SampleCompositionTimeOffset = 0\<rparr>],
           [\<lparr>Start = 200, End = 230\<rparr>], 30, 3, 0)
   \<and> spec_stop
      \<lparr>TrackID = 1, TimeScale = 10, Codec = ''avc1'', Mime = ''video/mp4'',
        Samples = [\<lparr>Offset = 100, Size = 10, Duration = 5, DTS = 0, PresentationOffset = 0, Sync = True\<rparr>,
                   \<lparr>Offset = 110, Size = 20, Duration = 5, DTS = 5, PresentationOffset = 0, Sync = False\<rparr>,
                   \<lparr>Offset = 200, Size = 30, Duration = 5, DTS = 10, PresentationOffset = 0, Sync = True\<rparr>,
                   \<lparr>Offset = 230, Size = 40, Duration = 5, DTS = 15, PresentationOffset = -1, Sync = False\<rparr>],
        initBuf = [], defaultSampleDescriptionIndex = 1\<rparr> 2 12 3
   \<and> generateFragment
      \<lparr>TrackID = 1, TimeScale = 10, Codec = ''avc1'', Mime = ''video/mp4'',
        Samples = [\<lparr>Offset = 100, Size = 10, Duration = 5, DTS = 0, PresentationOffset = 0, Sync = True\<rparr>,
                   \<lparr>Offset = 110, Size = 20, Duration = 5, DTS = 5, PresentationOffset = 0, Sync = False\<rparr>,
                   \<lparr>Offset = 200, Size = 30, Duration = 5, DTS = 10, PresentationOffset = 0, Sync = True\<rparr>,
                   \<lparr>Offset = 230, Size = 40, Duration = 5, DTS = 15, PresentationOffset = -1, Sync = False\<rparr>],
        initBuf = [], defaultSampleDescriptionIndex = 1\<rparr> 4 0
    = Inr ([], [], 0, 4, 0)"
proof -
  let ?T = "\<lparr>TrackID = 1, TimeScale = 10, Codec = ''avc1'', Mime = ''video/mp4'',
        Samples = [\<lparr>Offset = 100, Size = 10, Duration = 5, DTS = 0, PresentationOffset = 0, Sync = True\<rparr>,
                   \<lparr>Offset = 110, Size = 20, Duration = 5, DTS = 5, PresentationOffset = 0, Sync = False\<rparr>,
                   \<lparr>Offset = 200, Size = 30, Duration = 5, DTS = 10, PresentationOffset = 0, Sync = True\<rparr>,
                   \<lparr>Offset = 230, Size = 40, Duration = 5, DTS = 15, PresentationOffset = -1, Sync = False\<rparr>],
        initBuf = [], defaultSampleDescriptionIndex = 1\<rparr>"
  have a: "0 < length (Samples ?T)" by simp
  have b: "2 < length (Samples ?T)" by simp
  have run0: "generateFragment ?T (int 0) 0 = Inr ([\<lparr>SampleDuration = 5, SampleSize = 10, SampleFlags = 0x2000000, SampleCompositionTimeOffset = 0\<rparr>,
            \<lparr>SampleDuration = 5, SampleSize = 20, SampleFlags = 0x1010000, SampleCompositionTimeOffset = 0\<rparr>],
           [\<lparr>Start = 100, End = 130\<rparr>], 30, 2, 0)"
    by (simp add: fragment_eval word_sle_eq word_sless_alt)
  have run2: "generateFragment ?T (int 2) 12 = Inr ([\<lparr>SampleDuration = 5, SampleSize = 30, SampleFlags = 0x2000000, SampleCompositionTimeOffset = 0\<rparr>],
           [\<lparr>Start = 200, End = 230\<rparr>], 30, 3, 0)"
    by (simp add: fragment_eval word_sle_eq word_sless_alt)
  from C2_fragment_boundary [of 0 ?T 0 4] a obtain es rs tot nxt v where
    g0: "generateFragment ?T (int 0) 0 = Inr (es, rs, tot, int nxt, v)"
    and s0: "nxt < length (Samples ?T) \<longrightarrow> spec_stop ?T 0 0 nxt"
    by blast
  from g0 run0 have "nxt = 2" by simp
  with s0 have c: "spec_stop ?T 0 0 2" by simp
  from C2_fragment_boundary [of 2 ?T 12 4] b obtain es' rs' tot' nxt' v' where
    g2: "generateFragment ?T (int 2) 12 = Inr (es', rs', tot', int nxt', v')"
    and s2: "nxt' < length (Samples ?T) \<longrightarrow> spec_stop ?T 2 12 nxt'"
    by blast
  from g2 run2 have "nxt' = 3" by simp
  with s2 have d: "spec_stop ?T 2 12 3" by simp
  from C2_fragment_boundary [of 0 ?T 0 4]
  have e: "generateFragment ?T 4 0 = Inr ([], [], 0, 4, 0)" by simp
  from run0 c run2 d e show ?thesis by simp
qed

section \<open>Properties of the seek helpers\<close>

lemma searchLoop_bounds: "i \<le> j \<Longrightarrow> i \<le> searchLoop f i j \<and> searchLoop f i j \<le> j"
proof (induction f i j rule: searchLoop.induct)
  case (1 f i j)
  show ?case
  proof (cases "i < j")
    case True
    let ?h = "(i + j) div 2"
    from True have h: "i \<le> ?h" "?h < j" by auto
    show ?thesis
    proof (cases "f ?h")
      case True
      with \<open>i < j\<close> have e: "searchLoop f i j = searchLoop f i ?h"
        by (subst searchLoop.simps) (simp add: Let_def)
      from "1.IH"(2)[OF \<open>i < j\<close> refl _ h(1)] True h show ?thesis unfolding e by simp
    next
      case False
      with \<open>i < j\<close> have e: "searchLoop f i j = searchLoop f (?h + 1) j"
        by (subst searchLoop.simps) (simp add: Let_def)
      from "1.IH"(1)[OF \<open>i < j\<close> refl False] h show ?thesis unfolding e by simp
    qed
  next
    case False
    with "1.prems" show ?thesis by (subst searchLoop.simps, subst searchLoop.simps) simp
  qed
qed


lemma walkForward_props:
  "idx \<le> walkForward ss idx \<and> (idx \<le> length ss \<longrightarrow> walkForward ss idx \<le> length ss)
   \<and> (walkForward ss idx < length ss \<longrightarrow> Sync (ss ! walkForward ss idx))
   \<and> (\<forall>k. idx \<le> k \<and> k < walkForward ss idx \<longrightarrow> \<not> Sync (ss ! k))"
proof (induction ss idx rule: walkForward.induct)
  case (1 ss idx)
  show ?case
  proof (cases "idx < length ss \<and> \<not> Sync (ss ! idx)")
    case True
    then have e: "walkForward ss idx = walkForward ss (idx + 1)"
      by (subst walkForward.simps) simp
    note IH = "1.IH"[OF True]
    have "\<not> Sync (ss ! k)" if "idx \<le> k \<and> k < walkForward ss (idx + 1)" for k
    proof (cases "k = idx")
      case True
      with \<open>idx < length ss \<and> \<not> Sync (ss ! idx)\<close> show ?thesis by simp
    next
      case False
      with that have "idx + 1 \<le> k \<and> k < walkForward ss (idx + 1)" by simp
      with IH show ?thesis by blast
    qed
    with IH True show ?thesis unfolding e by auto
  next
    case False
    then have e: "walkForward ss idx = idx"
      by (subst walkForward.simps) auto
    from False show ?thesis unfolding e by auto
  qed
qed


lemma walkBackward_props:
  "walkBackward ss k \<le> k \<and> (walkBackward ss k = 0 \<or> Sync (ss ! walkBackward ss k))"
  by (induction k) auto

lemma sort_Search_le: "sort_Search n f \<le> n"
  using searchLoop_bounds[of 0 n f] by (simp add: sort_Search_def)

lemma FindSampleAfter_cases:
  "FindSampleAfter tr t =
     (let n = length (Samples tr); idx = sort_Search n (\<lambda>i. t \<le>s pts (Samples tr ! i));
          w = walkForward (Samples tr) idx
      in if idx < n \<and> w < n then int w else int n - 1)"
  by (auto simp: FindSampleAfter_def Let_def)

lemma FindSampleAfter_range:
  "Samples tr \<noteq> [] \<Longrightarrow> 0 \<le> FindSampleAfter tr t \<and> FindSampleAfter tr t < int (length (Samples tr))"
  by (auto simp: FindSampleAfter_cases Let_def)

lemma FindSampleAfter_empty: "Samples tr = [] \<Longrightarrow> FindSampleAfter tr t = - 1"
  by (simp add: FindSampleAfter_cases Let_def)


lemma FindSampleAfter_sync:
  assumes "Samples tr \<noteq> []"
  shows "Sync (Samples tr ! nat (FindSampleAfter tr t))
         \<or> FindSampleAfter tr t = int (length (Samples tr)) - 1"
proof -
  let ?ss = "Samples tr" and ?n = "length (Samples tr)"
  let ?i = "sort_Search ?n (\<lambda>i. t \<le>s pts (Samples tr ! i))"
  show ?thesis
  proof (cases "?i < ?n \<and> walkForward ?ss ?i < ?n")
    case True
    then have "FindSampleAfter tr t = int (walkForward ?ss ?i)"
      by (simp add: FindSampleAfter_cases Let_def)
    moreover from True walkForward_props[of ?i ?ss] have "Sync (?ss ! walkForward ?ss ?i)" by simp
    ultimately show ?thesis by simp
  next
    case False
    then have "FindSampleAfter tr t = int ?n - 1"
      by (auto simp: FindSampleAfter_cases Let_def)
    then show ?thesis by simp
  qed
qed

lemma FindSampleBefore_props:
  "0 \<le> FindSampleBefore tr t
   \<and> (Samples tr = [] \<longrightarrow> FindSampleBefore tr t = 0)
   \<and> (Samples tr \<noteq> [] \<longrightarrow> FindSampleBefore tr t < int (length (Samples tr)))
   \<and> (FindSampleBefore tr t = 0 \<or> Sync (Samples tr ! nat (FindSampleBefore tr t)))"
proof -
  let ?n = "length (Samples tr)"
  let ?s = "sort_Search ?n (\<lambda>i. t <s pts (Samples tr ! i))"
  let ?idx = "nat (max (int ?s - 1) 0)"
  have r: "FindSampleBefore tr t = int (walkBackward (Samples tr) ?idx)"
    by (simp add: FindSampleBefore_def Let_def)
  have "?idx \<le> ?n - 1" using sort_Search_le[of ?n "\<lambda>i. t <s pts (Samples tr ! i)"] by auto
  with walkBackward_props[of "Samples tr" ?idx]
  have w: "walkBackward (Samples tr) ?idx \<le> ?n - 1"
    and s: "walkBackward (Samples tr) ?idx = 0 \<or> Sync (Samples tr ! walkBackward (Samples tr) ?idx)"
    by auto
  have "walkBackward (Samples tr) ?idx < ?n" if "Samples tr \<noteq> []"
    using w that by (cases "Samples tr") auto
  moreover have "walkBackward (Samples tr) ?idx = 0" if "Samples tr = []"
    using w that by simp
  ultimately show ?thesis unfolding r using s by auto
qed

lemmas seek_eval = FindSampleAfter_def FindSampleBefore_def sort_Search_def searchLoop.simps
  walkForward.simps pts_def Let_def word_sle_eq word_sless_alt







































lemma resolveRange_empty:
  assumes "Samples tr = []"
  shows "resolveRange tr t ep es = Inl PanicIndex"
  using FindSampleAfter_empty[OF assms, of t] assms
  by (simp add: resolveRange_def Let_def)

lemma resolveRange_nonempty:
  assumes "Samples tr \<noteq> []"
  shows "\<exists>fs. 0 \<le> fs \<and> fs < int (length (Samples tr))
           \<and> resolveRange tr t ep es
               = Inr (fs, DTS (Samples tr ! nat fs), if ep then es else 0)"
proof -
  from FindSampleAfter_range[OF assms, of t]
  have a: "0 \<le> FindSampleAfter tr t" "FindSampleAfter tr t < int (length (Samples tr))" by simp_all
  from FindSampleBefore_props[of tr t] assms
  have b: "0 \<le> FindSampleBefore tr t" "FindSampleBefore tr t < int (length (Samples tr))" by simp_all
  show ?thesis
  proof (cases "ep \<and> es \<le>s pts (Samples tr ! nat (FindSampleAfter tr t))")
    case True
    with a b have "resolveRange tr t ep es
        = Inr (FindSampleBefore tr t, DTS (Samples tr ! nat (FindSampleBefore tr t)),
               if ep then es else 0)"
      by (simp add: resolveRange_def Let_def)
    with b show ?thesis by blast
  next
    case False
    with a have "resolveRange tr t ep es
        = Inr (FindSampleAfter tr t, DTS (Samples tr ! nat (FindSampleAfter tr t)),
               if ep then es else 0)"
      by (auto simp: resolveRange_def Let_def)
    with a show ?thesis by blast
  qed
qed

text \<open>
  Claim C10. \<open>FindSampleAfter\<close> returns an index between 0 and
  \<open>len(Samples) - 1\<close> exactly when the track has a sample. On a track without
  samples it returns \<open>-1\<close>, \<open>resolveRange\<close> panics indexing \<open>Samples\<close> there and
  so does \<open>Writer.WriteTo\<close>, before anything is written; on a track with a sample
  \<open>resolveRange\<close> returns an index inside the track.
\<close>

theorem C10_find_after_range:
  "((0 \<le> FindSampleAfter tr t \<and> FindSampleAfter tr t \<le> int (length (Samples tr)) - 1)
      \<longleftrightarrow> Samples tr \<noteq> [])
   \<and> (Samples tr = [] \<longrightarrow>
         FindSampleAfter tr t = - 1
         \<and> resolveRange tr t ep es = Inl PanicIndex
         \<and> WriteTo snk src tr t ep es = ([], Some PanicIndex))
   \<and> (Samples tr \<noteq> [] \<longrightarrow>
         (\<exists>fs off ets. resolveRange tr t ep es = Inr (fs, off, ets)
            \<and> 0 \<le> fs \<and> fs < int (length (Samples tr))))"
proof (cases "Samples tr = []")
  case True
  from FindSampleAfter_empty[OF True, of t] resolveRange_empty[OF True, of t ep es] True
  show ?thesis by (simp add: WriteTo_def)
next
  case False
  from FindSampleAfter_range[OF False, of t] resolveRange_nonempty[OF False, of t ep es] False
  show ?thesis by auto
qed

theorem C10_find_after_range_witness:
  "FindSampleAfter
      \<lparr>TrackID = 1, TimeScale = 1, Codec = ''avc1'', Mime = ''video/mp4'', Samples = [],
        initBuf = [], defaultSampleDescriptionIndex = 1\<rparr> 0 = - 1
   \<and> resolveRange
      \<lparr>TrackID = 1, TimeScale = 1, Codec = ''avc1'', Mime = ''video/mp4'', Samples = [],
        initBuf = [], defaultSampleDescriptionIndex = 1\<rparr> 0 False 0 = Inl PanicIndex
   \<and> resolveRange
      \<lparr>TrackID = 1, TimeScale = 1, Codec = ''avc1'', Mime = ''video/mp4'',
        Samples = [\<lparr>Offset = 100, Size = 10, Duration = 1, DTS = 0, PresentationOffset = 0, Sync = True\<rparr>,
                   \<lparr>Offset = 110, Size = 20, Duration = 1, DTS = 1, PresentationOffset = 0, Sync = False\<rparr>],
        initBuf = [], defaultSampleDescriptionIndex = 1\<rparr> 0 False 0 = Inr (0, 0, 0)"
proof -
  let ?E = "\<lparr>TrackID = 1, TimeScale = 1, Codec = ''avc1'', Mime = ''video/mp4'', Samples = [],
        initBuf = [], defaultSampleDescriptionIndex = 1 :: u32\<rparr>"
  let ?T = "\<lparr>TrackID = 1, TimeScale = 1, Codec = ''avc1'', Mime = ''video/mp4'',
        Samples = [\<lparr>Offset = 100, Size = 10, Duration = 1, DTS = 0, PresentationOffset = 0, Sync = True\<rparr>,
                   \<lparr>Offset = 110, Size = 20, Duration = 1, DTS = 1, PresentationOffset = 0, Sync = False\<rparr>],
        initBuf = [], defaultSampleDescriptionIndex = 1\<rparr>"
  have e: "Samples ?E = []" by simp
  from C10_find_after_range [of ?E 0 False 0] e
  have a: "FindSampleAfter ?E 0 = - 1 \<and> resolveRange ?E 0 False 0 = Inl PanicIndex"
    by blast
  have "resolveRange ?T 0 False 0 = Inr (0, 0, 0)"
    by (simp add: resolveRange_def seek_eval)
  with a show ?thesis by simp
qed

section \<open>Properties of the moof writer and the stream writer\<close>

lemma length_be32: "length (be32 v) = 4"
  by (simp add: be32_def)

lemma length_trunEntryBytes: "length (trunEntryBytes e) = 16"
  by (simp add: trunEntryBytes_def length_be32)

lemma length_concat_trunEntryBytes: "length (concat (map trunEntryBytes es)) = 16 * length es"
  by (induction es) (simp_all add: length_trunEntryBytes)

lemma be_uint_be32: "(be_uint (be32 v) :: u32) = v"
proof -
  have "(push_bit 8 (push_bit 8 (push_bit 8 (ucast (ucast (drop_bit 24 v) :: u8))
            OR ucast (ucast (drop_bit 16 v) :: u8)) OR ucast (ucast (drop_bit 8 v) :: u8))
          OR ucast (ucast v :: u8) :: u32) = v"
  proof (rule bit_word_eqI)
    fix n :: nat
    assume "n < LENGTH(32)"
    then consider "n < 8" | "8 \<le> n" "n < 16" | "16 \<le> n" "n < 24" | "24 \<le> n" "n < 32"
      by fastforce
    then show "bit (push_bit 8 (push_bit 8 (push_bit 8 (ucast (ucast (drop_bit 24 v) :: u8))
            OR ucast (ucast (drop_bit 16 v) :: u8)) OR ucast (ucast (drop_bit 8 v) :: u8))
          OR ucast (ucast v :: u8) :: u32) n = bit v n"
      by cases (auto simp: bit_simps)
  qed
  then show ?thesis by (simp add: be_uint_def be32_def)
qed

lemma writeMoof_length:
  "length (writeMoof seqNum trackID base es v) = 8 + 16 + (8 + 16 + 16 + (20 + 16 * length es))"
  by (simp add: writeMoof_def Let_def length_be32 fourcc_def length_concat_trunEntryBytes)

lemma writeMoof_fields:
  "take 4 (writeMoof seqNum trackID base es v) = be32 (word_of_nat (84 + 16 * length es))"
  "take 4 (drop 4 (writeMoof seqNum trackID base es v)) = fourcc ''moof''"
  "take 4 (drop 52 (writeMoof seqNum trackID base es v)) = fourcc ''tfdt''"
  "take 4 (drop 56 (writeMoof seqNum trackID base es v)) = [0, 0, 0, 0]"
  "take 4 (drop 60 (writeMoof seqNum trackID base es v)) = be32 base"
  "take 4 (drop 68 (writeMoof seqNum trackID base es v)) = fourcc ''trun''"
  "take 4 (drop 72 (writeMoof seqNum trackID base es v)) = [v, 0x00, 0x0f, 0x01]"
  "take 4 (drop 76 (writeMoof seqNum trackID base es v)) = be32 (word_of_nat (length es))"
  "take 4 (drop 80 (writeMoof seqNum trackID base es v)) = be32 (word_of_nat (84 + 16 * length es + 8))"
  by (simp_all add: writeMoof_def Let_def length_be32 fourcc_def add.commute mult.commute)


lemma copyLoop_moofs:
  "WMoof s b \<in> set (fst (copyLoop snk src pos remaining out)) \<Longrightarrow> WMoof s b \<in> set out"
proof (induction snk src pos remaining out rule: copyLoop.induct)
  case (1 snk src pos remaining out)
  show ?case
  proof (cases "remaining \<le> 0 \<or> pos \<ge> length src")
    case True
    with "1.prems" show ?thesis by (subst (asm) copyLoop.simps) (auto split: if_splits)
  next
    case False
    let ?blk = "take (nat (min 32768 remaining)) (drop pos src)"
    show ?thesis
    proof (cases "snk out (WPayload ?blk)")
      case (Some e)
      with False "1.prems" show ?thesis by (subst (asm) copyLoop.simps) (auto simp: Let_def)
    next
      case None
      with False "1.prems" have
        "WMoof s b \<in> set (fst (copyLoop snk src (pos + length ?blk) (remaining - int (length ?blk))
                                 (out @ [WPayload ?blk])))"
        by (subst (asm) copyLoop.simps) (auto simp: Let_def)
      from "1.IH"[OF _ _ refl refl None this] False show ?thesis by auto
    qed
  qed
qed

lemma copyRanges_moofs:
  "WMoof s b \<in> set (fst (copyRanges snk src rs out)) \<Longrightarrow> WMoof s b \<in> set out"
proof (induction rs arbitrary: out)
  case Nil
  then show ?case by simp
next
  case (Cons r rs)
  show ?case
  proof (cases "Start r <s 0")
    case True
    with Cons.prems show ?thesis by simp
  next
    case False
    obtain out' err where c: "copyLoop snk src (nat (sint (Start r))) (sint (End r - Start r)) out = (out', err)"
      by (cases "copyLoop snk src (nat (sint (Start r))) (sint (End r - Start r)) out")
    have "WMoof s b \<in> set out'"
    proof (cases err)
      case None
      with c False Cons.prems have "WMoof s b \<in> set (fst (copyRanges snk src rs out'))" by simp
      then show ?thesis by (rule Cons.IH)
    next
      case (Some e)
      with c False Cons.prems show ?thesis by simp
    qed
    with copyLoop_moofs[of s b snk src "nat (sint (Start r))" "sint (End r - Start r)" out] c
    show ?thesis by simp
  qed
qed

lemma fragmentPass_moofs:
  assumes "sample < length (Samples track)"
    and "fragmentPass snk src track dtsOffset ets sample seqNum out = Leave out' err
         \<or> fragmentPass snk src track dtsOffset ets sample seqNum out = Continue nxt out'"
    and "WMoof s b \<in> set out'"
  shows "WMoof s b \<in> set out \<or> isMoofOf track dtsOffset ets s b"
proof (cases "0 <s ets \<and> ets \<le>s pts (Samples track ! sample)")
  case True
  with assms show ?thesis by (auto simp: fragmentPass_def)
next
  case nostop: False
  show ?thesis
  proof (cases "generateFragment track (int sample) ets")
    case (Inl e)
    with nostop assms show ?thesis by (auto simp: fragmentPass_def)
  next
    case (Inr r)
    obtain es rs tot nx v where r: "r = (es, rs, tot, nx, v)" by (cases r) auto
    show ?thesis
    proof (cases "es = []")
      case True
      with nostop Inr r assms show ?thesis by (auto simp: fragmentPass_def)
    next
      case False
      let ?moof = "writeMoof seqNum (TrackID track) (ucast (DTS (Samples track ! sample) - dtsOffset)) es v"
      let ?hdr = "WMdatHdr (be32 (ucast (8 + tot)) @ fourcc ''mdat'')"
      have m: "isMoofOf track dtsOffset ets sample ?moof"
        using assms(1) Inr r False unfolding isMoofOf_def by blast
      have sub: "WMoof s b \<in> set (out @ [WMoof sample ?moof, ?hdr])
                 \<Longrightarrow> WMoof s b \<in> set out \<or> isMoofOf track dtsOffset ets s b"
        using m by auto
      have "WMoof s b \<in> set (out @ [WMoof sample ?moof, ?hdr])"
      proof (cases "snk out (WMoof sample ?moof)")
        case (Some e)
        with nostop Inr r False assms(2,3) show ?thesis
          by (auto simp: fragmentPass_def Let_def)
      next
        case n1: None
        show ?thesis
        proof (cases "snk (out @ [WMoof sample ?moof]) ?hdr")
          case (Some e)
          with n1 nostop Inr r False assms(2,3) show ?thesis
            by (auto simp: fragmentPass_def Let_def)
        next
          case n2: None
          obtain o2 e2 where c: "copyRanges snk src rs (out @ [WMoof sample ?moof, ?hdr]) = (o2, e2)"
            by (cases "copyRanges snk src rs (out @ [WMoof sample ?moof, ?hdr])")
          with n1 n2 nostop Inr r False assms(2) have "out' = o2"
            by (cases e2) (auto simp: fragmentPass_def Let_def)
          with assms(3) c
          have "WMoof s b \<in> set (fst (copyRanges snk src rs (out @ [WMoof sample ?moof, ?hdr])))"
            by simp
          then show ?thesis by (rule copyRanges_moofs)
        qed
      qed
      then show ?thesis by (rule sub)
    qed
  qed
qed

lemma writeLoop_moofs:
  assumes "\<forall>s b. WMoof s b \<in> set out \<longrightarrow> isMoofOf track dtsOffset ets s b"
    and "WMoof s b \<in> set (fst (writeLoop snk src track dtsOffset ets sample seqNum out))"
  shows "isMoofOf track dtsOffset ets s b"
  using assms
proof (induction snk src track dtsOffset ets sample seqNum out rule: writeLoop.induct)
  case (1 snk src track dtsOffset ets sample seqNum out)
  show ?case
  proof (cases "sample < length (Samples track)")
    case False
    with "1.prems" show ?thesis by (subst (asm) writeLoop.simps) auto
  next
    case lt: True
    show ?thesis
    proof (cases "fragmentPass snk src track dtsOffset ets sample seqNum out")
      case (Leave out' err)
      with lt "1.prems"(2) have "WMoof s b \<in> set out'"
        by (subst (asm) writeLoop.simps) simp
      from fragmentPass_moofs[OF lt _ this, of snk src dtsOffset ets seqNum out err] Leave "1.prems"(1)
      show ?thesis by blast
    next
      case (Continue nxt out')
      have inv: "\<forall>s b. WMoof s b \<in> set out' \<longrightarrow> isMoofOf track dtsOffset ets s b"
      proof (intro allI impI)
        fix s' b' assume "WMoof s' b' \<in> set out'"
        from fragmentPass_moofs[OF lt _ this, of snk src dtsOffset ets seqNum out undefined nxt]
          Continue "1.prems"(1)
        show "isMoofOf track dtsOffset ets s' b'" by blast
      qed
      from lt Continue "1.prems"(2)
      have "WMoof s b \<in> set (fst (writeLoop snk src track dtsOffset ets (nat nxt) (seqNum + 1) out'))"
        by (subst (asm) writeLoop.simps) simp
      from "1.IH"[OF lt Continue inv this] show ?thesis .
    qed
  qed
qed

lemma WriteTo_moofs:
  assumes "WriteTo snk src track startScaled endPositive endScaled = (out, err)"
    and "WMoof s b \<in> set out"
  shows "\<exists>firstSample. 0 \<le> firstSample \<and> firstSample < int (length (Samples track))
           \<and> resolveRange track startScaled endPositive endScaled
               = Inr (firstSample, DTS (Samples track ! nat firstSample),
                      if endPositive then endScaled else 0)
           \<and> isMoofOf track (DTS (Samples track ! nat firstSample))
                 (if endPositive then endScaled else 0) s b"
proof (cases "Samples track = []")
  case True
  from resolveRange_empty[OF True, of startScaled endPositive endScaled] assms
  show ?thesis by (simp add: WriteTo_def)
next
  case False
  from resolveRange_nonempty[OF False, of startScaled endPositive endScaled]
  obtain fs where fs: "0 \<le> fs" "fs < int (length (Samples track))"
    and rr: "resolveRange track startScaled endPositive endScaled
               = Inr (fs, DTS (Samples track ! nat fs), if endPositive then endScaled else 0)"
    by blast
  let ?off = "DTS (Samples track ! nat fs)" and ?ets = "if endPositive then endScaled else 0"
  show ?thesis
  proof (cases "snk [] (WInit (initBuf track))")
    case (Some e)
    with rr assms show ?thesis by (simp add: WriteTo_def)
  next
    case None
    with rr assms(1) have "out = fst (writeLoop snk src track ?off ?ets (nat fs) 1 [WInit (initBuf track)])"
      by (simp add: WriteTo_def)
    with assms(2) have "WMoof s b \<in> set (fst (writeLoop snk src track ?off ?ets (nat fs) 1 [WInit (initBuf track)]))"
      by simp
    then have "isMoofOf track ?off ?ets s b"
      by (intro writeLoop_moofs[where out = "[WInit (initBuf track)]"]) auto
    with fs rr show ?thesis by blast
  qed
qed


lemma writeMoof_versions:
  "writeMoof seqNum trackID base es v ! 56 = 0"
  "writeMoof seqNum trackID base es v ! 72 = v"
  "take 3 (drop 73 (writeMoof seqNum trackID base es v)) = [0x00, 0x0f, 0x01]"
  by (simp_all add: writeMoof_def Let_def length_be32 fourcc_def nth_append)

lemma trunc_sub: "uint (ucast (a - b :: i64) :: u32) = (sint a - sint b) mod 2 ^ 32"
proof -
  have 1: "uint (ucast (a - b) :: u32) = uint (a - b) mod 2 ^ 32"
    by (simp add: take_bit_eq_mod unsigned_ucast_eq)
  have 2: "uint (a - b) = (uint a - uint b) mod 2 ^ 64"
    by (simp add: uint_word_ariths)
  have 3: "sint a mod 2 ^ 64 = uint a" for a :: i64
  proof -
    have "take_bit 64 (sint a) = take_bit 64 (uint a)"
      by (simp add: sint_uint take_bit_signed_take_bit)
    also have "\<dots> = uint a"
      by (simp add: take_bit_int_eq_self_iff uint_bounded[where 'a=64, simplified] )
    finally show ?thesis by (simp add: take_bit_eq_mod)
  qed
  have 4: "((x :: int) mod 2 ^ 64) mod 2 ^ 32 = x mod 2 ^ 32" for x
    by (rule mod_mod_cancel) (simp add: le_imp_power_dvd)
  have "(sint a - sint b) mod 2 ^ 32 = ((sint a - sint b) mod 2 ^ 64) mod 2 ^ 32"
    by (simp only: 4)
  also have "(sint a - sint b) mod 2 ^ 64 = (sint a mod 2 ^ 64 - sint b mod 2 ^ 64) mod 2 ^ 64"
    by (simp only: mod_diff_eq)
  also have "\<dots> = uint (a - b)" by (simp only: 3 2)
  finally show ?thesis using 1 by simp
qed

lemma unat_of_nat32: "m < 2 ^ 32 \<Longrightarrow> unat (word_of_nat m :: u32) = m"
  by (simp add: unat_of_nat)

lemma isMoofOf_run:
  assumes "isMoofOf track dtsOffset ets sample b"
  shows "\<exists>N seqNum rs tot.
     0 < N \<and> sample + N \<le> length (Samples track)
     \<and> generateFragment track (int sample) ets
         = Inr (map trunEntryOf (take N (drop sample (Samples track))), rs, tot, int (sample + N),
                if \<exists>i < N. PresentationOffset (Samples track ! (sample + i)) <s 0 then 1 else 0)
     \<and> b = writeMoof seqNum (TrackID track) (ucast (DTS (Samples track ! sample) - dtsOffset))
             (map trunEntryOf (take N (drop sample (Samples track))))
             (if \<exists>i < N. PresentationOffset (Samples track ! (sample + i)) <s 0 then 1 else 0)"
proof -
  let ?ss = "Samples track"
  from assms obtain seqNum es rs tot nxt v where lt: "sample < length ?ss"
    and gen: "generateFragment track (int sample) ets = Inr (es, rs, tot, nxt, v)"
    and ne: "es \<noteq> []"
    and b: "b = writeMoof seqNum (TrackID track) (ucast (DTS (?ss ! sample) - dtsOffset)) es v"
    unfolding isMoofOf_def by blast
  define e where "e = fragmentEnd ?ss sample (DTS (?ss ! sample))
                    (ucast (TimeScale track) * minFragmentDuration) ets sample"
  define N where "N = e - sample"
  from lt have "sample \<le> length ?ss" by simp
  from fragmentEnd_props[OF this, of sample "DTS (?ss ! sample)"
      "ucast (TimeScale track) * minFragmentDuration" ets]
  have bounds: "sample \<le> e" "e \<le> length ?ss" unfolding e_def by simp_all
  from generateFragment_result[OF lt, of ets] obtain rs' tot' where
    gen': "generateFragment track (int sample) ets
       = Inr (map trunEntryOf (take N (drop sample ?ss)), rs', tot', int e,
              if \<exists>s \<in> set (take N (drop sample ?ss)). PresentationOffset s <s 0 then 1 else 0)"
    unfolding e_def N_def by blast
  from gen gen' ne have "take N (drop sample ?ss) \<noteq> []" by auto
  then have Npos: "0 < N" by (cases N) auto
  have eN: "e = sample + N" using bounds N_def by simp
  have len: "length (take N (drop sample ?ss)) = N" using bounds N_def by simp
  have ex: "(\<exists>s \<in> set (take N (drop sample ?ss)). PresentationOffset s <s 0)
        \<longleftrightarrow> (\<exists>i < N. PresentationOffset (?ss ! (sample + i)) <s 0)"
  proof
    assume "\<exists>s \<in> set (take N (drop sample ?ss)). PresentationOffset s <s 0"
    then obtain i where "i < length (take N (drop sample ?ss))"
      "PresentationOffset (take N (drop sample ?ss) ! i) <s 0"
      by (auto simp: in_set_conv_nth)
    with len bounds eN show "\<exists>i < N. PresentationOffset (?ss ! (sample + i)) <s 0"
      by auto
  next
    assume "\<exists>i < N. PresentationOffset (?ss ! (sample + i)) <s 0"
    then obtain i where i: "i < N" "PresentationOffset (?ss ! (sample + i)) <s 0" by blast
    with len bounds eN have "take N (drop sample ?ss) ! i = ?ss ! (sample + i)" by simp
    moreover from i len have "take N (drop sample ?ss) ! i \<in> set (take N (drop sample ?ss))"
      by (metis nth_mem)
    ultimately show "\<exists>s \<in> set (take N (drop sample ?ss)). PresentationOffset s <s 0"
      using i by metis
  qed
  from gen gen' b have "b = writeMoof seqNum (TrackID track) (ucast (DTS (?ss ! sample) - dtsOffset))
             (map trunEntryOf (take N (drop sample ?ss)))
             (if \<exists>s \<in> set (take N (drop sample ?ss)). PresentationOffset s <s 0 then 1 else 0)"
    by simp
  with gen' Npos bounds eN show ?thesis unfolding ex by blast
qed

text \<open>
  Claim C3. Every moof written by \<open>Writer.WriteTo\<close> belongs to a fragment of
  \<open>N > 0\<close> samples chosen by \<open>generateFragment\<close>; it is
  \<open>8 + 16 + (8 + 16 + 16 + (20 + 16 * N))\<close> octets long, its size and sample-count
  fields hold that length and \<open>N\<close>, its \<open>trun\<close> data-offset field holds the moof
  size plus 8 (as the \<open>uint32\<close> the code stores: exactly that number whenever it
  is below \<open>2^32\<close>), its \<open>trun\<close> flags are \<open>0x000f01\<close>, and its \<open>trun\<close> version
  octet is 1 when some sample of the fragment has a negative composition offset and 0
  otherwise.
\<close>

theorem C3_moof_layout:
  assumes "WriteTo snk src track startScaled endPositive endScaled = (out, err)"
    and "WMoof sample b \<in> set out"
  shows "\<exists>N es rs tot v.
     generateFragment track (int sample) (if endPositive then endScaled else 0)
       = Inr (es, rs, tot, int (sample + N), v)
     \<and> length es = N \<and> 0 < N \<and> sample + N \<le> length (Samples track)
     \<and> length b = 8 + 16 + (8 + 16 + 16 + (20 + 16 * N))
     \<and> be_uint (take 4 b) = (word_of_nat (length b) :: u32)
     \<and> be_uint (take 4 (drop 76 b)) = (word_of_nat N :: u32)
     \<and> be_uint (take 4 (drop 80 b)) = (word_of_nat (length b + 8) :: u32)
     \<and> (length b + 8 < 2 ^ 32 \<longrightarrow>
          unat (be_uint (take 4 (drop 80 b)) :: u32) = length b + 8)
     \<and> take 3 (drop 73 b) = [0x00, 0x0f, 0x01]
     \<and> b ! 72 = (if \<exists>i < N. PresentationOffset (Samples track ! (sample + i)) <s 0 then 1 else 0)"
proof -
  from WriteTo_moofs[OF assms] obtain off where
    "isMoofOf track off (if endPositive then endScaled else 0) sample b" by blast
  from isMoofOf_run[OF this] obtain N seqNum rs tot where N: "0 < N" "sample + N \<le> length (Samples track)"
    and gen: "generateFragment track (int sample) (if endPositive then endScaled else 0)
         = Inr (map trunEntryOf (take N (drop sample (Samples track))), rs, tot, int (sample + N),
                if \<exists>i < N. PresentationOffset (Samples track ! (sample + i)) <s 0 then 1 else 0)"
    and b: "b = writeMoof seqNum (TrackID track) (ucast (DTS (Samples track ! sample) - off))
             (map trunEntryOf (take N (drop sample (Samples track))))
             (if \<exists>i < N. PresentationOffset (Samples track ! (sample + i)) <s 0 then 1 else 0)"
    by blast
  let ?es = "map trunEntryOf (take N (drop sample (Samples track)))"
  have len: "length ?es = N" using N by simp
  have l: "length b = 8 + 16 + (8 + 16 + 16 + (20 + 16 * N))"
    unfolding b writeMoof_length len ..
  have f0: "be_uint (take 4 b) = (word_of_nat (length b) :: u32)"
    unfolding l unfolding b writeMoof_fields len by (simp add: be_uint_be32)
  have f76: "be_uint (take 4 (drop 76 b)) = (word_of_nat N :: u32)"
    unfolding b writeMoof_fields len by (simp add: be_uint_be32)
  have f80: "be_uint (take 4 (drop 80 b)) = (word_of_nat (length b + 8) :: u32)"
    unfolding l unfolding b writeMoof_fields len by (simp add: be_uint_be32)
  have f73: "take 3 (drop 73 b) = [0x00, 0x0f, 0x01]"
    unfolding b by (rule writeMoof_versions)
  have f72: "b ! 72 = (if \<exists>i < N. PresentationOffset (Samples track ! (sample + i)) <s 0 then 1 else 0)"
    unfolding b by (rule writeMoof_versions)
  have f80n: "length b + 8 < 2 ^ 32 \<longrightarrow>
          unat (be_uint (take 4 (drop 80 b)) :: u32) = length b + 8"
    unfolding f80 using unat_of_nat32[of "length b + 8"] by blast
  from gen len N l f0 f76 f80 f80n f73 f72 show ?thesis by blast
qed

text \<open>
  Claim C9. In every moof written by \<open>Writer.WriteTo\<close> the \<open>tfdt\<close> box has
  version 0, and its four-octet base media decode time is the decode timestamp of
  the fragment's first sample minus \<open>dtsOffset\<close>, reduced modulo \<open>2^32\<close>.
\<close>

theorem C9_tfdt_truncation:
  assumes "WriteTo snk src track startScaled endPositive endScaled = (out, err)"
    and "WMoof sample b \<in> set out"
  shows "\<exists>firstSample dtsOffset endTimeScaled.
     resolveRange track startScaled endPositive endScaled = Inr (firstSample, dtsOffset, endTimeScaled)
     \<and> dtsOffset = DTS (Samples track ! nat firstSample)
     \<and> sample < length (Samples track)
     \<and> take 4 (drop 52 b) = fourcc ''tfdt''
     \<and> b ! 56 = 0
     \<and> uint (be_uint (take 4 (drop 60 b)) :: u32)
         = (sint (DTS (Samples track ! sample)) - sint dtsOffset) mod 2 ^ 32"
proof -
  from WriteTo_moofs[OF assms] obtain fs where
    rr: "resolveRange track startScaled endPositive endScaled
               = Inr (fs, DTS (Samples track ! nat fs), if endPositive then endScaled else 0)"
    and m: "isMoofOf track (DTS (Samples track ! nat fs)) (if endPositive then endScaled else 0) sample b"
    by blast
  from m obtain seqNum es v where lt: "sample < length (Samples track)"
    and b: "b = writeMoof seqNum (TrackID track)
                  (ucast (DTS (Samples track ! sample) - DTS (Samples track ! nat fs))) es v"
    unfolding isMoofOf_def by blast
  have "take 4 (drop 52 b) = fourcc ''tfdt''" unfolding b by (rule writeMoof_fields)
  moreover have "b ! 56 = 0" unfolding b by (rule writeMoof_versions)
  moreover have "uint (be_uint (take 4 (drop 60 b)) :: u32)
         = (sint (DTS (Samples track ! sample)) - sint (DTS (Samples track ! nat fs))) mod 2 ^ 32"
    unfolding b writeMoof_fields be_uint_be32 by (rule trunc_sub)
  ultimately show ?thesis using rr lt by blast
qed


lemmas stream_eval = WriteTo_def resolveRange_def writeLoop.simps fragmentPass_def copyLoop.simps
  be32_def fourcc_def

lemma u32_wrap: "(4294967298 :: u32) = 2"
  by simp

lemma WriteTo_example:
  "WriteTo (\<lambda>h w. None) [1, 2, 3, 4, 5, 6]
      \<lparr>TrackID = 1, TimeScale = 1, Codec = ''avc1'', Mime = ''video/mp4'',
        Samples = [\<lparr>Offset = 0, Size = 2, Duration = 1, DTS = 0, PresentationOffset = 0, Sync = True\<rparr>,
                   \<lparr>Offset = 2, Size = 1, Duration = 1, DTS = 1, PresentationOffset = -1, Sync = False\<rparr>,
                   \<lparr>Offset = 3, Size = 2, Duration = 1, DTS = 4294967298, PresentationOffset = 0, Sync = True\<rparr>],
        initBuf = [], defaultSampleDescriptionIndex = 1\<rparr> 0 False 0
   = ([WInit [],
         WMoof 0 (writeMoof 1 1 0
           [\<lparr>SampleDuration = 1, SampleSize = 2, SampleFlags = 0x2000000, SampleCompositionTimeOffset = 0\<rparr>,
         \<lparr>SampleDuration = 1, SampleSize = 1, SampleFlags = 0x1010000, SampleCompositionTimeOffset = -1\<rparr>] 1),
         WMdatHdr [0, 0, 0, 11, 0x6d, 0x64, 0x61, 0x74],
         WPayload [1, 2, 3],
         WMoof 2 (writeMoof 2 1 2
           [\<lparr>SampleDuration = 1, SampleSize = 2, SampleFlags = 0x2000000, SampleCompositionTimeOffset = 0\<rparr>] 0),
         WMdatHdr [0, 0, 0, 10, 0x6d, 0x64, 0x61, 0x74],
         WPayload [4, 5]], None)"
  by (simp add: stream_eval seek_eval fragment_eval u32_wrap)


theorem C3_moof_layout_witness:
  "WMoof 0 (writeMoof 1 1 0
           [\<lparr>SampleDuration = 1, SampleSize = 2, SampleFlags = 0x2000000, SampleCompositionTimeOffset = 0\<rparr>,
         \<lparr>SampleDuration = 1, SampleSize = 1, SampleFlags = 0x1010000, SampleCompositionTimeOffset = -1\<rparr>] 1)
     \<in> set (fst (WriteTo (\<lambda>h w. None) [1, 2, 3, 4, 5, 6]
      \<lparr>TrackID = 1, TimeScale = 1, Codec = ''avc1'', Mime = ''video/mp4'',
        Samples = [\<lparr>Offset = 0, Size = 2, Duration = 1, DTS = 0, PresentationOffset = 0, Sync = True\<rparr>,
                   \<lparr>Offset = 2, Size = 1, Duration = 1, DTS = 1, PresentationOffset = -1, Sync = False\<rparr>,
                   \<lparr>Offset = 3, Size = 2, Duration = 1, DTS = 4294967298, PresentationOffset = 0, Sync = True\<rparr>],
        initBuf = [], defaultSampleDescriptionIndex = 1\<rparr> 0 False 0))
   \<and> length (writeMoof 1 1 0
           [\<lparr>SampleDuration = 1, SampleSize = 2, SampleFlags = 0x2000000, SampleCompositionTimeOffset = 0\<rparr>,
         \<lparr>SampleDuration = 1, SampleSize = 1, SampleFlags = 0x1010000, SampleCompositionTimeOffset = -1\<rparr>] 1) = 8 + 16 + (8 + 16 + 16 + (20 + 16 * 2))
   \<and> unat (be_uint (take 4 (drop 80 (writeMoof 1 1 0
           [\<lparr>SampleDuration = 1, SampleSize = 2, SampleFlags = 0x2000000, SampleCompositionTimeOffset = 0\<rparr>,
         \<lparr>SampleDuration = 1, SampleSize = 1, SampleFlags = 0x1010000, SampleCompositionTimeOffset = -1\<rparr>] 1))) :: u32) = 124
   \<and> take 3 (drop 73 (writeMoof 1 1 0
           [\<lparr>SampleDuration = 1, SampleSize = 2, SampleFlags = 0x2000000, SampleCompositionTimeOffset = 0\<rparr>,
         \<lparr>SampleDuration = 1, SampleSize = 1, SampleFlags = 0x1010000, SampleCompositionTimeOffset = -1\<rparr>] 1)) = [0x00, 0x0f, 0x01]
   \<and> (writeMoof 1 1 0
           [\<lparr>SampleDuration = 1, SampleSize = 2, SampleFlags = 0x2000000, SampleCompositionTimeOffset = 0\<rparr>,
         \<lparr>SampleDuration = 1, SampleSize = 1, SampleFlags = 0x1010000, SampleCompositionTimeOffset = -1\<rparr>] 1) ! 72 = 1"
proof -
  let ?T = "\<lparr>TrackID = 1, TimeScale = 1, Codec = ''avc1'', Mime = ''video/mp4'',
        Samples = [\<lparr>Offset = 0, Size = 2, Duration = 1, DTS = 0, PresentationOffset = 0, Sync = True\<rparr>,
                   \<lparr>Offset = 2, Size = 1, Duration = 1, DTS = 1, PresentationOffset = -1, Sync = False\<rparr>,
                   \<lparr>Offset = 3, Size = 2, Duration = 1, DTS = 4294967298, PresentationOffset = 0, Sync = True\<rparr>],
        initBuf = [], defaultSampleDescriptionIndex = 1\<rparr>"
  let ?b = "(writeMoof 1 1 0
           [\<lparr>SampleDuration = 1, SampleSize = 2, SampleFlags = 0x2000000, SampleCompositionTimeOffset = 0\<rparr>,
         \<lparr>SampleDuration = 1, SampleSize = 1, SampleFlags = 0x1010000, SampleCompositionTimeOffset = -1\<rparr>] 1)"
  have run: "WriteTo (\<lambda>h w. None) [1, 2, 3, 4, 5, 6] ?T 0 False 0
      = (fst (WriteTo (\<lambda>h w. None) [1, 2, 3, 4, 5, 6] ?T 0 False 0),
         snd (WriteTo (\<lambda>h w. None) [1, 2, 3, 4, 5, 6] ?T 0 False 0))"
    by simp
  have mem: "WMoof 0 ?b \<in> set (fst (WriteTo (\<lambda>h w. None) [1, 2, 3, 4, 5, 6] ?T 0 False 0))"
    by (simp add: WriteTo_example)
  from C3_moof_layout [OF run mem] obtain N es rs tot v where
    gen: "generateFragment ?T (int 0) (if False then 0 else 0) = Inr (es, rs, tot, int (0 + N), v)"
    and l: "length ?b = 8 + 16 + (8 + 16 + 16 + (20 + 16 * N))"
    and off: "length ?b + 8 < 2 ^ 32 \<longrightarrow> unat (be_uint (take 4 (drop 80 ?b)) :: u32) = length ?b + 8"
    and fl: "take 3 (drop 73 ?b) = [0x00, 0x0f, 0x01]"
    and ver: "?b ! 72 = (if \<exists>i < N. PresentationOffset (Samples ?T ! (0 + i)) <s 0 then 1 else 0)"
    by blast
  have "generateFragment ?T (int 0) (if False then 0 else 0)
          = Inr ([\<lparr>SampleDuration = 1, SampleSize = 2, SampleFlags = 0x2000000, SampleCompositionTimeOffset = 0\<rparr>,
         \<lparr>SampleDuration = 1, SampleSize = 1, SampleFlags = 0x1010000, SampleCompositionTimeOffset = -1\<rparr>], [\<lparr>Start = 0, End = 3\<rparr>], 3, 2, 1)"
    by (simp add: fragment_eval word_sle_eq word_sless_alt)
  with gen have N: "N = 2" by simp
  have "\<exists>i < 2. PresentationOffset (Samples ?T ! (0 + i)) <s 0"
    by (rule exI[of _ 1]) (simp add: word_sless_alt)
  with ver N have v1: "?b ! 72 = 1" by simp
  from l N have l2: "length ?b = 8 + 16 + (8 + 16 + 16 + (20 + 16 * 2))" by simp
  with off have "unat (be_uint (take 4 (drop 80 ?b)) :: u32) = 124" by simp
  with mem l2 fl v1 show ?thesis by blast
qed

theorem C9_tfdt_truncation_witness:
  "WMoof 2 (writeMoof 2 1 2
           [\<lparr>SampleDuration = 1, SampleSize = 2, SampleFlags = 0x2000000, SampleCompositionTimeOffset = 0\<rparr>] 0)
     \<in> set (fst (WriteTo (\<lambda>h w. None) [1, 2, 3, 4, 5, 6]
      \<lparr>TrackID = 1, TimeScale = 1, Codec = ''avc1'', Mime = ''video/mp4'',
        Samples = [\<lparr>Offset = 0, Size = 2, Duration = 1, DTS = 0, PresentationOffset = 0, Sync = True\<rparr>,
                   \<lparr>Offset = 2, Size = 1, Duration = 1, DTS = 1, PresentationOffset = -1, Sync = False\<rparr>,
                   \<lparr>Offset = 3, Size = 2, Duration = 1, DTS = 4294967298, PresentationOffset = 0, Sync = True\<rparr>],
        initBuf = [], defaultSampleDescriptionIndex = 1\<rparr> 0 False 0))
   \<and> (writeMoof 2 1 2
           [\<lparr>SampleDuration = 1, SampleSize = 2, SampleFlags = 0x2000000, SampleCompositionTimeOffset = 0\<rparr>] 0) ! 56 = 0
   \<and> uint (be_uint (take 4 (drop 60 (writeMoof 2 1 2
           [\<lparr>SampleDuration = 1, SampleSize = 2, SampleFlags = 0x2000000, SampleCompositionTimeOffset = 0\<rparr>] 0))) :: u32) = 4294967298 mod 2 ^ 32"
proof -
  let ?T = "\<lparr>TrackID = 1, TimeScale = 1, Codec = ''avc1'', Mime = ''video/mp4'',
        Samples = [\<lparr>Offset = 0, Size = 2, Duration = 1, DTS = 0, PresentationOffset = 0, Sync = True\<rparr>,
                   \<lparr>Offset = 2, Size = 1, Duration = 1, DTS = 1, PresentationOffset = -1, Sync = False\<rparr>,
                   \<lparr>Offset = 3, Size = 2, Duration = 1, DTS = 4294967298, PresentationOffset = 0, Sync = True\<rparr>],
        initBuf = [], defaultSampleDescriptionIndex = 1\<rparr>"
  let ?b = "(writeMoof 2 1 2
           [\<lparr>SampleDuration = 1, SampleSize = 2, SampleFlags = 0x2000000, SampleCompositionTimeOffset = 0\<rparr>] 0)"
  have run: "WriteTo (\<lambda>h w. None) [1, 2, 3, 4, 5, 6] ?T 0 False 0
      = (fst (WriteTo (\<lambda>h w. None) [1, 2, 3, 4, 5, 6] ?T 0 False 0),
         snd (WriteTo (\<lambda>h w. None) [1, 2, 3, 4, 5, 6] ?T 0 False 0))"
    by simp
  have mem: "WMoof 2 ?b \<in> set (fst (WriteTo (\<lambda>h w. None) [1, 2, 3, 4, 5, 6] ?T 0 False 0))"
    by (simp add: WriteTo_example)
  from C9_tfdt_truncation [OF run mem] obtain firstSample dtsOffset endTimeScaled where
    rr: "resolveRange ?T 0 False 0 = Inr (firstSample, dtsOffset, endTimeScaled)"
    and v: "?b ! 56 = 0"
    and base: "uint (be_uint (take 4 (drop 60 ?b)) :: u32)
         = (sint (DTS (Samples ?T ! 2)) - sint dtsOffset) mod 2 ^ 32"
    by blast
  have "resolveRange ?T 0 False 0 = Inr (0, 0, 0)"
    by (simp add: resolveRange_def seek_eval)
  with rr have "dtsOffset = 0" by simp
  with base have "uint (be_uint (take 4 (drop 60 ?b)) :: u32) = 4294967298 mod 2 ^ 32"
    by simp
  with mem v show ?thesis by blast
qed

section \<open>The scanner at the end of the source\<close>

lemma Next_short_basic_header:
  assumes "length (r_data (s_rs s)) - nat (sint (r_off (s_rs s))) < 8"
  shows "fst (Scanner_Next s) = False \<and> Scanner_Err (snd (Scanner_Next s)) = s_err s"
  using assms by (auto simp: Scanner_Next_def ReadFull_def Scanner_Err_def Let_def)

lemmas scanner_eval = Scanner_Next_def finishNext_def ReadFull_def Seek_def NewScanner_def
  Scanner_Err_def fillHdr_def be_uint_def Let_def word_sless_alt

text \<open>
  Claim C7 at a source that ends inside an extended size header. The source holds the
  eight octets of a box header with size 1, alone or followed by four of the eight
  octets of the extended size. \<open>Next\<close> returns false, and \<open>Err\<close> reports
  \<open>io.EOF\<close> in the first case and \<open>io.ErrUnexpectedEOF\<close> in the second, where the
  claim has no error.
\<close>

theorem C7_extended_header_short_read:
  "fst (Scanner_Next (NewScanner \<lparr>r_data = [0, 0, 0, 1, 0x6d, 0x64, 0x61, 0x74], r_off = 0\<rparr>)) = False
   \<and> Scanner_Err (snd (Scanner_Next
         (NewScanner \<lparr>r_data = [0, 0, 0, 1, 0x6d, 0x64, 0x61, 0x74], r_off = 0\<rparr>))) = Some EOF
   \<and> fst (Scanner_Next
         (NewScanner \<lparr>r_data = [0, 0, 0, 1, 0x6d, 0x64, 0x61, 0x74, 0, 0, 0, 0], r_off = 0\<rparr>)) = False
   \<and> Scanner_Err (snd (Scanner_Next
         (NewScanner \<lparr>r_data = [0, 0, 0, 1, 0x6d, 0x64, 0x61, 0x74, 0, 0, 0, 0], r_off = 0\<rparr>)))
       = Some ErrUnexpectedEOF"
  by (simp add: scanner_eval)

lemma Next_example_ok:
  "Scanner_Next (NewScanner \<lparr>r_data = [0, 0, 0, 12, 0x6d, 0x64, 0x61, 0x74, 1, 2, 3, 4, 0, 0], r_off = 0\<rparr>)
   = (True, \<lparr>s_rs = \<lparr>r_data = [0, 0, 0, 12, 0x6d, 0x64, 0x61, 0x74, 1, 2, 3, 4, 0, 0], r_off = 12\<rparr>,
             s_hdr = [0, 0, 0, 12, 0x6d, 0x64, 0x61, 0x74] @ replicate 8 0,
             s_entry = \<lparr>entry_Type = [0x6d, 0x64, 0x61, 0x74], entry_Size = 12, entry_Offset = 0,
                         entry_HeaderSize = 8\<rparr>,
             s_err = None, s_pos = 12\<rparr>)"
  by (simp add: scanner_eval)

section \<open>Version selection of the typed box writers\<close>

lemmas writer_eval = written_by_def NewWriter_def StartFullBox_def StartBox_def EndBox_def
  putUint16_def putUint32_def putUint64_def putZeros_def putBytes_def putFixed_def store_def
  maxDepth_def be16_def be32_def be64_def fourcc_def Let_def

lemma spec_overflows_u32_iff: "spec_overflows_u32 v \<longleftrightarrow> v > uint32Max"
  by (simp add: spec_overflows_u32_def uint32Max_def word_less_def)

lemma WriteMehd_version:
  "\<exists>bs. written_by (WriteMehd fd) 64 = Some bs
      \<and> bs ! 8 = (if spec_overflows_u32 fd then 1 else 0)
      \<and> (if spec_overflows_u32 fd then drop 12 bs = be64 fd else drop 12 bs = be32 (ucast fd))"
proof (cases "fd > uint32Max")
  case True
  then show ?thesis
    by (simp add: spec_overflows_u32_iff WriteMehd_def writer_eval)
next
  case False
  then show ?thesis
    by (simp add: spec_overflows_u32_iff WriteMehd_def writer_eval)
qed

text \<open>
  Claim C8 at an edit whose media time lies below the signed 32-bit range. The media
  time \<open>-2^32\<close> overflows 32 bits, yet \<open>WriteElst\<close> writes version 0 with the
  32-bit layout, the media time truncated to 0.
\<close>

theorem C8_elst_negative_media_time:
  "spec_overflows_i32 (- 4294967296)
   \<and> written_by (WriteElst [\<lparr>SegmentDuration = 0, MediaTime = - 4294967296,
                              MediaRateInt = 1, MediaRateFrac = 0\<rparr>]) 64
     = Some [0, 0, 0, 28, 0x65, 0x6c, 0x73, 0x74, 0, 0, 0, 0, 0, 0, 0, 1,
             0, 0, 0, 0, 0, 0, 0, 0, 0, 1, 0, 0]"
  by (simp add: spec_overflows_i32_def WriteElst_def elstNeedsV1_def uint32Max_def writer_eval
      word_sless_alt)


lemma WriteTfdt_version:
  "\<exists>bs. written_by (WriteTfdt t) 64 = Some bs
      \<and> bs ! 8 = (if spec_overflows_u32 t then 1 else 0)
      \<and> (if spec_overflows_u32 t then drop 12 bs = be64 t else drop 12 bs = be32 (ucast t))"
proof (cases "t > uint32Max")
  case True
  then show ?thesis
    by (simp add: spec_overflows_u32_iff WriteTfdt_def writer_eval)
next
  case False
  then show ?thesis
    by (simp add: spec_overflows_u32_iff WriteTfdt_def writer_eval)
qed

lemma WriteMdhd_version:
  "\<exists>bs. written_by (WriteMdhd ts d lang) 64 = Some bs
      \<and> bs ! 8 = (if spec_overflows_u32 d then 1 else 0)
      \<and> (if spec_overflows_u32 d then take 8 (drop 32 bs) = be64 d
          else take 4 (drop 24 bs) = be32 (ucast d))"
proof (cases "d > uint32Max")
  case True
  then show ?thesis
    by (simp add: spec_overflows_u32_iff WriteMdhd_def writer_eval)
next
  case False
  then show ?thesis
    by (simp add: spec_overflows_u32_iff WriteMdhd_def writer_eval)
qed

lemma WriteMvhd_version:
  "\<exists>bs. written_by (WriteMvhd ts d nxt) 128 = Some bs
      \<and> bs ! 8 = (if spec_overflows_u32 d then 1 else 0)
      \<and> (if spec_overflows_u32 d then take 8 (drop 32 bs) = be64 d
          else take 4 (drop 24 bs) = be32 (ucast d))"
proof (cases "d > uint32Max")
  case True
  then show ?thesis
    by (simp add: spec_overflows_u32_iff WriteMvhd_def writer_eval)
next
  case False
  then show ?thesis
    by (simp add: spec_overflows_u32_iff WriteMvhd_def writer_eval)
qed

lemma WriteTkhd_version:
  "\<exists>bs. written_by (WriteTkhd fl tid d wd ht) 128 = Some bs
      \<and> bs ! 8 = (if spec_overflows_u32 d then 1 else 0)
      \<and> (if spec_overflows_u32 d then take 8 (drop 36 bs) = be64 d
          else take 4 (drop 28 bs) = be32 (ucast d))"
proof (cases "d > uint32Max")
  case True
  then show ?thesis
    by (simp add: spec_overflows_u32_iff WriteTkhd_def writer_eval)
next
  case False
  then show ?thesis
    by (simp add: spec_overflows_u32_iff WriteTkhd_def writer_eval)
qed

lemma media_time_test:
  "(scast (ucast m :: i32) :: i64) <s m \<longleftrightarrow> sint m > 2 ^ 31 - 1"
proof -
  have "sint (scast (ucast m :: i32) :: i64) = sint (ucast m :: i32)"
    by (rule sint_up_scast) (simp add: is_up)
  also have "\<dots> = signed_take_bit 31 (uint m)"
    by (simp add: signed_ucast_eq)
  also have "\<dots> = signed_take_bit 31 (signed_take_bit 63 (uint m))"
    by (simp add: signed_take_bit_signed_take_bit)
  also have "\<dots> = signed_take_bit 31 (sint m)"
    by (simp add: sint_uint)
  finally have s: "sint (scast (ucast m :: i32) :: i64) = signed_take_bit 31 (sint m)" .
  show ?thesis
    unfolding word_sless_alt s signed_take_bit_int_less_self_iff by auto
qed

lemma WriteElst_version:
  "\<exists>bs. written_by (WriteElst [e]) 64 = Some bs
      \<and> bs ! 8 = (if spec_overflows_u32 (SegmentDuration e) \<or> sint (MediaTime e) > 2 ^ 31 - 1
                  then 1 else 0)"
proof (cases "SegmentDuration e > uint32Max \<or> (scast (ucast (MediaTime e) :: i32) :: i64) <s MediaTime e")
  case True
  then have "written_by (WriteElst [e]) 64 \<noteq> None \<and> the (written_by (WriteElst [e]) 64) ! 8 = 1"
    by (simp add: WriteElst_def elstNeedsV1_def writer_eval)
  with True show ?thesis
    unfolding media_time_test spec_overflows_u32_iff by auto
next
  case False
  then have "written_by (WriteElst [e]) 64 \<noteq> None \<and> the (written_by (WriteElst [e]) 64) ! 8 = 0"
    by (simp add: WriteElst_def elstNeedsV1_def writer_eval)
  with False show ?thesis
    unfolding media_time_test spec_overflows_u32_iff by auto
qed

end
